theory Spec2Isabelle
  imports Main "HOL-Library.Word"
begin

unbundle bit_operations_syntax

section \<open>Failures\<close>

text \<open>
  Every way the C++ can stop instead of returning is a value of \<open>error\<close>:
  a failed \<open>always_assert\<close> / \<open>always_assert_log\<close> (with the formatted message),
  the exceptions of \<open>std::stoi\<close>, \<open>std::vector::at\<close> and \<open>std::unordered_map::at\<close>,
  a failed run-time check of the s-expression library, and the dereference of
  an end iterator.
\<close>

datatype error =
    always_assert_failed
  | always_assert_log_failed string
  | invalid_argument
  | out_of_range
  | s_expr_check_failed
  | invalid_dereference

definition bind_err :: "error + 'a \<Rightarrow> ('a \<Rightarrow> error + 'b) \<Rightarrow> error + 'b" where
  "bind_err r k = (case r of Inl e \<Rightarrow> Inl e | Inr x \<Rightarrow> k x)"

definition always_assert :: "bool \<Rightarrow> error + unit" where
  "always_assert c = (if c then Inr () else Inl always_assert_failed)"

text \<open>A loop whose body may fail: the first failure ends the loop.\<close>

primrec for_each :: "('s \<Rightarrow> 'a \<Rightarrow> error + 's) \<Rightarrow> 'a list \<Rightarrow> 's \<Rightarrow> error + 's" where
  "for_each f [] s = Inr s"
| "for_each f (x # xs) s = bind_err (f s x) (for_each f xs)"

section \<open>std::to\_string and std::stoi\<close>

definition digit_char :: "nat \<Rightarrow> char" where
  "digit_char d = char_of (48 + d)"

fun to_string :: "nat \<Rightarrow> string" where
  "to_string n = (if n < 10 then [digit_char n] else to_string (n div 10) @ [digit_char (n mod 10)])"

declare to_string.simps [simp del]

definition isspace :: "char \<Rightarrow> bool" where
  "isspace c = (of_char c \<in> {32, 9, 10, 11, 12, 13 :: nat})"

definition isdigit :: "char \<Rightarrow> bool" where
  "isdigit c = (48 \<le> (of_char c :: nat) \<and> (of_char c :: nat) \<le> 57)"

definition digit_val :: "char \<Rightarrow> nat" where
  "digit_val c = of_char c - 48"

definition digits_value :: "string \<Rightarrow> nat" where
  "digits_value ds = foldl (\<lambda>acc c. 10 * acc + digit_val c) 0 ds"

text \<open>
  \<open>std::stoi(str)\<close> with the default base 10: leading white space is skipped, one
  optional sign is read, then the longest run of decimal digits. No digit at all
  is \<open>std::invalid_argument\<close>, a value outside \<open>int\<close> is \<open>std::out_of_range\<close>;
  whatever follows the digits is ignored.
\<close>

definition stoi :: "string \<Rightarrow> error + int" where
  "stoi str =
     (let s1 = dropWhile isspace str;
          neg = (s1 \<noteq> [] \<and> hd s1 = CHR ''-'');
          s2 = (if s1 \<noteq> [] \<and> (hd s1 = CHR ''-'' \<or> hd s1 = CHR ''+'') then tl s1 else s1);
          ds = takeWhile isdigit s2
      in if ds = [] then Inl invalid_argument
         else let v = (if neg then - int (digits_value ds) else int (digits_value ds))
              in if v < - 2147483648 \<or> 2147483647 < v then Inl out_of_range else Inr v)"

section \<open>S-expressions\<close>

text \<open>
  Modelled from the spec: the s-expression library (\<open>sparta::s_expr\<close>) is not among
  the sources. The serialized form is "a nested parenthesized list form": an
  s-expression is a 32-bit integer atom, a string atom or a list of s-expressions.
  The accessors check the kind of their argument and fail on a mismatch, so that
  parsing rejects a field that is not of the expected kind; \<open>str\<close> gives the text
  of an atom.
\<close>

datatype s_expr =
    Int32Atom "32 word"
  | StringAtom string
  | List "s_expr list"

fun is_string :: "s_expr \<Rightarrow> bool" where
  "is_string (StringAtom _) = True"
| "is_string _ = False"

fun is_list :: "s_expr \<Rightarrow> bool" where
  "is_list (List _) = True"
| "is_list _ = False"

fun s_expr_size :: "s_expr \<Rightarrow> error + nat" where
  "s_expr_size (List xs) = Inr (length xs)"
| "s_expr_size _ = Inl s_expr_check_failed"

fun s_expr_at :: "s_expr \<Rightarrow> nat \<Rightarrow> error + s_expr" where
  "s_expr_at (List xs) i = (if i < length xs then Inr (xs ! i) else Inl s_expr_check_failed)"
| "s_expr_at _ i = Inl s_expr_check_failed"

fun get_int32 :: "s_expr \<Rightarrow> error + 32 word" where
  "get_int32 (Int32Atom n) = Inr n"
| "get_int32 _ = Inl s_expr_check_failed"

fun str :: "s_expr \<Rightarrow> error + string" where
  "str (StringAtom s) = Inr s"
| "str (Int32Atom n) = Inr (if sint n < 0 then CHR ''-'' # to_string (nat (- sint n)) else to_string (nat (sint n)))"
| "str (List _) = Inl s_expr_check_failed"

section \<open>Summaries and their serialization\<close>

text \<open>
  The header declaring \<open>Summary\<close> is not among the sources. Its two fields are
  used in the code as an unsigned machine integer holding a bitset (\<open>effects\<close>,
  combined with \<open>|=\<close> and printed with \<open>std::to_string\<close>) and a
  \<open>std::unordered_set\<close> of parameter indices (\<open>modified_params\<close>). The widths of
  the two integer types are parameters \<open>'e\<close> and \<open>'p\<close> of the model. The unordered
  set is the list of its elements in iteration order; \<open>emplace\<close> adds an element
  that is not there yet, and \<open>operator==\<close> compares the two sets of elements.
\<close>

record ('effects_t, 'param_idx_t) Summary_rec =
  effects :: "'effects_t"
  modified_params :: "'param_idx_t list"

type_synonym ('e, 'p) Summary = "('e word, 'p word) Summary_rec"

definition EFF_THROWS :: "'e::len word" where "EFF_THROWS = 1"
definition EFF_LOCKS :: "'e::len word" where "EFF_LOCKS = 2"
definition EFF_WRITE_MAY_ESCAPE :: "'e::len word" where "EFF_WRITE_MAY_ESCAPE = 4"
definition EFF_UNKNOWN_INVOKE :: "'e::len word" where "EFF_UNKNOWN_INVOKE = 8"
definition EFF_NO_OPTIMIZE :: "'e::len word" where "EFF_NO_OPTIMIZE = 16"


definition emplace :: "'a \<Rightarrow> 'a list \<Rightarrow> 'a list" where
  "emplace x xs = (if x \<in> set xs then xs else xs @ [x])"


definition default_Summary :: "('e::len, 'p::len) Summary" where
  "default_Summary = \<lparr>effects = 0, modified_params = []\<rparr>"


definition from_s_expr :: "s_expr \<Rightarrow> error + ('e::len, 'p::len) Summary" where
  "from_s_expr expr =
     bind_err (s_expr_size expr) (\<lambda>n.
     bind_err (always_assert (n = 2)) (\<lambda>_.
     bind_err (s_expr_at expr 0) (\<lambda>e0.
     bind_err (always_assert (is_string e0)) (\<lambda>_.
     bind_err (str e0) (\<lambda>text.
     bind_err (stoi text) (\<lambda>v.
     bind_err (s_expr_at expr 1) (\<lambda>e1.
     bind_err (always_assert (is_list e1)) (\<lambda>_.
     bind_err (s_expr_size e1) (\<lambda>m.
       for_each (\<lambda>summary i.
           bind_err (s_expr_at e1 i) (\<lambda>x.
           bind_err (get_int32 x) (\<lambda>k.
             Inr (summary\<lparr>modified_params := emplace (ucast k) (modified_params summary)\<rparr>))))
         [0..<m]
         (default_Summary\<lparr>effects := word_of_int v\<rparr>))))))))))"

section \<open>Instructions and the pointer analysis\<close>

text \<open>
  The opcodes the analysed functions name; every other opcode is \<open>OPCODE_OTHER\<close>.
\<close>

datatype IROpcode =
    OPCODE_THROW
  | OPCODE_MONITOR_ENTER | OPCODE_MONITOR_EXIT
  | OPCODE_SPUT | OPCODE_SPUT_WIDE | OPCODE_SPUT_BOOLEAN | OPCODE_SPUT_BYTE
  | OPCODE_SPUT_CHAR | OPCODE_SPUT_SHORT | OPCODE_SPUT_OBJECT
  | OPCODE_IPUT | OPCODE_IPUT_WIDE | OPCODE_IPUT_BOOLEAN | OPCODE_IPUT_BYTE
  | OPCODE_IPUT_CHAR | OPCODE_IPUT_SHORT | OPCODE_IPUT_OBJECT
  | OPCODE_APUT | OPCODE_APUT_WIDE | OPCODE_APUT_BOOLEAN | OPCODE_APUT_BYTE
  | OPCODE_APUT_CHAR | OPCODE_APUT_SHORT | OPCODE_APUT_OBJECT
  | OPCODE_FILL_ARRAY_DATA
  | OPCODE_INVOKE_SUPER | OPCODE_INVOKE_INTERFACE
  | OPCODE_INVOKE_STATIC | OPCODE_INVOKE_DIRECT | OPCODE_INVOKE_VIRTUAL
  | IOPCODE_LOAD_PARAM_OBJECT
  | OPCODE_CONST | OPCODE_CONST_WIDE | OPCODE_CONST_STRING
  | IOPCODE_MOVE_RESULT_PSEUDO_OBJECT
  | OPCODE_OTHER nat

type_synonym reg_t = "32 word"

text \<open>
  An instruction object. Maps of the code are keyed by \<open>const IRInstruction*\<close>;
  \<open>insn_addr\<close> is that address, so two instruction objects with the same contents
  stay different keys.
\<close>

record IRInstruction =
  insn_addr :: nat
  opcode :: IROpcode
  srcs :: "reg_t list"
  dest :: reg_t
  literal :: "64 word"
  string_data :: "string option"

text \<open>\<open>insn->src(i)\<close>: the \<open>i\<close>-th source register; an index past the operands fails.\<close>

definition src :: "IRInstruction \<Rightarrow> nat \<Rightarrow> error + reg_t" where
  "src insn i = (if i < length (srcs insn) then Inr (srcs insn ! i) else Inl out_of_range)"

text \<open>
  Modelled from the spec: the local pointer analysis is not among the sources. It
  gives "for a program point and register, the set of allocation-site instruction
  identities it may reference, each flagged escaped/not-escaped, or a sentinel
  meaning unknown/top". A pointer set is a value (a concrete set, listed in
  iteration order) or one of the two extreme elements of the lattice; an
  environment may be bottom (unreachable).
\<close>

datatype PointerSet =
    PointerSet_Bottom
  | PointerSet_Value "IRInstruction list"
  | PointerSet_Top

record Environment =
  is_bottom :: bool
  get_pointers :: "reg_t \<Rightarrow> PointerSet"
  may_have_escaped :: "IRInstruction \<Rightarrow> bool"

record Block =
  block_id :: nat
  block_insns :: "IRInstruction list"

record IRCode =
  get_param_instructions :: "IRInstruction list"
  cfg_blocks :: "Block list"

record FixpointIterator =
  get_entry_state_at :: "Block \<Rightarrow> Environment"
  analyze_instruction :: "IRInstruction \<Rightarrow> Environment \<Rightarrow> Environment"

section \<open>The summary builder\<close>

text \<open>\<open>emplace\<close> on a map keeps the entry of a key that is already there.\<close>

definition map_emplace :: "'k \<Rightarrow> 'v \<Rightarrow> ('k \<rightharpoonup> 'v) \<Rightarrow> ('k \<rightharpoonup> 'v)" where
  "map_emplace k v m = (if m k = None then m(k \<mapsto> v) else m)"

type_synonym 'p ParamInstructionMap = "IRInstruction \<rightharpoonup> 'p word"
type_synonym ('e, 'p) InvokeToSummaryMap = "IRInstruction \<rightharpoonup> ('e, 'p) Summary"

record ('e, 'p) SummaryBuilder_rec =
  m_param_insn_map :: "IRInstruction \<rightharpoonup> 'p"
  m_invoke_to_summary_cmap :: "IRInstruction \<rightharpoonup> ('e, 'p) Summary_rec"
  m_ptrs_fp_iter :: FixpointIterator
  m_code :: IRCode

type_synonym ('e, 'p) SummaryBuilder = "('e word, 'p word) SummaryBuilder_rec"

text \<open>The constructor's loop: \<open>m_param_insn_map.emplace(insn, idx++)\<close>.\<close>

primrec param_insn_map_loop ::
  "IRInstruction list \<Rightarrow> nat \<Rightarrow> 'p::len ParamInstructionMap \<Rightarrow> 'p ParamInstructionMap" where
  "param_insn_map_loop [] idx m = m"
| "param_insn_map_loop (insn # rest) idx m =
     param_insn_map_loop rest (idx + 1) (map_emplace insn (of_nat idx) m)"

definition SummaryBuilder ::
  "('e::len, 'p::len) InvokeToSummaryMap \<Rightarrow> FixpointIterator \<Rightarrow> IRCode \<Rightarrow> ('e, 'p) SummaryBuilder" where
  "SummaryBuilder invoke_to_summary_cmap ptrs_fp_iter code =
     \<lparr>m_param_insn_map = param_insn_map_loop (get_param_instructions code) 0 Map.empty,
      m_invoke_to_summary_cmap = invoke_to_summary_cmap,
      m_ptrs_fp_iter = ptrs_fp_iter,
      m_code = code\<rparr>"

text \<open>The body of the loop of \<open>classify_heap_write\<close> over the elements of the pointer set.\<close>

definition classify_element ::
  "('e::len, 'p::len) SummaryBuilder \<Rightarrow> Environment \<Rightarrow> ('e, 'p) Summary \<Rightarrow> IRInstruction
     \<Rightarrow> error + ('e, 'p) Summary" where
  "classify_element b env summary insn =
     (if \<not> may_have_escaped env insn then
        if opcode insn = IOPCODE_LOAD_PARAM_OBJECT then
          (case m_param_insn_map b insn of
             None \<Rightarrow> Inl out_of_range
           | Some idx \<Rightarrow>
               Inr (summary\<lparr>modified_params := emplace idx (modified_params summary)\<rparr>))
        else Inr summary
      else Inr (summary\<lparr>effects := effects summary OR EFF_WRITE_MAY_ESCAPE\<rparr>))"

definition classify_heap_write ::
  "('e::len, 'p::len) SummaryBuilder \<Rightarrow> Environment \<Rightarrow> reg_t \<Rightarrow> ('e, 'p) Summary
     \<Rightarrow> error + ('e, 'p) Summary" where
  "classify_heap_write b env modified_ptr_reg summary =
     (case get_pointers env modified_ptr_reg of
        PointerSet_Value elements \<Rightarrow> for_each (classify_element b env) elements summary
      | _ \<Rightarrow> Inr (summary\<lparr>effects := effects summary OR EFF_WRITE_MAY_ESCAPE\<rparr>))"

definition analyze_instruction_effects ::
  "('e::len, 'p::len) SummaryBuilder \<Rightarrow> Environment \<Rightarrow> IRInstruction \<Rightarrow> ('e, 'p) Summary
     \<Rightarrow> error + ('e, 'p) Summary" where
  "analyze_instruction_effects b env insn summary =
     (let heap_write = (\<lambda>i. bind_err (src insn i) (\<lambda>r. classify_heap_write b env r summary));
          unknown_invoke = Inr (summary\<lparr>effects := effects summary OR EFF_UNKNOWN_INVOKE\<rparr>);
          write_may_escape = Inr (summary\<lparr>effects := effects summary OR EFF_WRITE_MAY_ESCAPE\<rparr>);
          locks = Inr (summary\<lparr>effects := effects summary OR EFF_LOCKS\<rparr>);
          known_invoke =
            (case m_invoke_to_summary_cmap b insn of
               Some callee_summary \<Rightarrow>
                 for_each (\<lambda>summary idx.
                     bind_err (src insn (unat idx)) (\<lambda>r. classify_heap_write b env r summary))
                   (modified_params callee_summary)
                   (summary\<lparr>effects := effects summary OR effects callee_summary\<rparr>)
             | None \<Rightarrow> unknown_invoke)
      in case opcode insn of
           OPCODE_THROW \<Rightarrow> Inr (summary\<lparr>effects := effects summary OR EFF_THROWS\<rparr>)
         | OPCODE_MONITOR_ENTER \<Rightarrow> locks
         | OPCODE_MONITOR_EXIT \<Rightarrow> locks
         | OPCODE_SPUT \<Rightarrow> write_may_escape
         | OPCODE_SPUT_WIDE \<Rightarrow> write_may_escape
         | OPCODE_SPUT_BOOLEAN \<Rightarrow> write_may_escape
         | OPCODE_SPUT_BYTE \<Rightarrow> write_may_escape
         | OPCODE_SPUT_CHAR \<Rightarrow> write_may_escape
         | OPCODE_SPUT_SHORT \<Rightarrow> write_may_escape
         | OPCODE_SPUT_OBJECT \<Rightarrow> write_may_escape
         | OPCODE_IPUT \<Rightarrow> heap_write 1
         | OPCODE_IPUT_WIDE \<Rightarrow> heap_write 1
         | OPCODE_IPUT_BOOLEAN \<Rightarrow> heap_write 1
         | OPCODE_IPUT_BYTE \<Rightarrow> heap_write 1
         | OPCODE_IPUT_CHAR \<Rightarrow> heap_write 1
         | OPCODE_IPUT_SHORT \<Rightarrow> heap_write 1
         | OPCODE_IPUT_OBJECT \<Rightarrow> heap_write 1
         | OPCODE_APUT \<Rightarrow> heap_write 1
         | OPCODE_APUT_WIDE \<Rightarrow> heap_write 1
         | OPCODE_APUT_BOOLEAN \<Rightarrow> heap_write 1
         | OPCODE_APUT_BYTE \<Rightarrow> heap_write 1
         | OPCODE_APUT_CHAR \<Rightarrow> heap_write 1
         | OPCODE_APUT_SHORT \<Rightarrow> heap_write 1
         | OPCODE_APUT_OBJECT \<Rightarrow> heap_write 1
         | OPCODE_FILL_ARRAY_DATA \<Rightarrow> heap_write 0
         | OPCODE_INVOKE_SUPER \<Rightarrow> unknown_invoke
         | OPCODE_INVOKE_INTERFACE \<Rightarrow> unknown_invoke
         | OPCODE_INVOKE_STATIC \<Rightarrow> known_invoke
         | OPCODE_INVOKE_DIRECT \<Rightarrow> known_invoke
         | OPCODE_INVOKE_VIRTUAL \<Rightarrow> known_invoke
         | _ \<Rightarrow> Inr summary)"

text \<open>
  \<open>build\<close>: blocks whose entry state is bottom are skipped; in the others the
  effects of each instruction are added before the pointer environment moves past it.
\<close>

definition build_block ::
  "('e::len, 'p::len) SummaryBuilder \<Rightarrow> Block \<Rightarrow> ('e, 'p) Summary \<Rightarrow> error + ('e, 'p) Summary" where
  "build_block b block summary =
     (let env = get_entry_state_at (m_ptrs_fp_iter b) block
      in if is_bottom env then Inr summary
         else bind_err
           (for_each (\<lambda>(summary, env) insn.
                bind_err (analyze_instruction_effects b env insn summary) (\<lambda>summary'.
                  Inr (summary', analyze_instruction (m_ptrs_fp_iter b) insn env)))
              (block_insns block) (summary, env))
           (\<lambda>(summary', _). Inr summary'))"

definition build :: "('e::len, 'p::len) SummaryBuilder \<Rightarrow> error + ('e, 'p) Summary" where
  "build b = for_each (\<lambda>summary block. build_block b block summary) (cfg_blocks (m_code b)) default_Summary"

section \<open>The recursive driver\<close>

text \<open>
  A method object with what the driver reads of it: \<open>get_code()\<close> (null for a method
  without a body) and \<open>rstate.no_optimizations()\<close>; \<open>method_addr\<close> is its address.
  A call graph is a finite list of nodes, each with its outgoing edges; an edge
  gives the callee and the invoke instruction of the call site.
\<close>

record DexMethod =
  method_addr :: nat
  get_code :: "IRCode option"
  no_optimizations :: bool

record Edge =
  callee :: DexMethod
  invoke_insn :: IRInstruction

type_synonym Graph = "(DexMethod \<times> Edge list) list"

type_synonym ('e, 'p) SummaryConcurrentMap = "DexMethod \<rightharpoonup> ('e, 'p) Summary"

definition graph_nodes :: "Graph \<Rightarrow> DexMethod set" where
  "graph_nodes call_graph = fst ` set call_graph"

text \<open>
  \<open>analyze_method_recursive\<close> with the loop over the callee edges as a second
  function. \<open>visiting\<close> is passed by value: the insertion is seen by the calls
  below and by nobody else. A failure anywhere ends the whole analysis.
\<close>

lemma card_visiting_less:
  assumes "method \<notin> visiting" and "map_of call_graph method = Some callee_edges"
  shows "card (graph_nodes call_graph - insert method visiting)
           < card (graph_nodes call_graph - visiting)"
proof -
  have "method \<in> graph_nodes call_graph - visiting"
    using assms by (auto simp: graph_nodes_def dest: map_of_SomeD intro: rev_image_eqI)
  moreover have "finite (graph_nodes call_graph - visiting)"
    by (simp add: graph_nodes_def)
  ultimately show ?thesis
    by (metis Diff_insert card_Diff1_less)
qed

function analyze_method_recursive ::
    "DexMethod \<Rightarrow> Graph \<Rightarrow> (DexMethod \<rightharpoonup> FixpointIterator) \<Rightarrow> DexMethod set
       \<Rightarrow> ('e::len, 'p::len) SummaryConcurrentMap \<Rightarrow> error + ('e, 'p) SummaryConcurrentMap"
  and analyze_callees ::
    "Edge list \<Rightarrow> Graph \<Rightarrow> (DexMethod \<rightharpoonup> FixpointIterator) \<Rightarrow> DexMethod set
       \<Rightarrow> ('e::len, 'p::len) InvokeToSummaryMap \<times> ('e, 'p) SummaryConcurrentMap
       \<Rightarrow> error + ('e, 'p) InvokeToSummaryMap \<times> ('e, 'p) SummaryConcurrentMap"
  where
  "analyze_method_recursive method call_graph ptrs_fp_iter_map visiting summary_cmap =
     (if summary_cmap method \<noteq> None \<or> method \<in> visiting \<or> get_code method = None
      then Inr summary_cmap
      else
        (case (case map_of call_graph method of
                 None \<Rightarrow> Inr (Map.empty, summary_cmap)
               | Some callee_edges \<Rightarrow>
                   analyze_callees callee_edges call_graph ptrs_fp_iter_map
                     (insert method visiting) (Map.empty, summary_cmap)) of
           Inl e \<Rightarrow> Inl e
         | Inr (invoke_to_summary_cmap, summary_cmap') \<Rightarrow>
             (case ptrs_fp_iter_map method of
                None \<Rightarrow> Inl invalid_dereference
              | Some ptrs_fp_iter \<Rightarrow>
                  (case build (SummaryBuilder invoke_to_summary_cmap ptrs_fp_iter
                                 (the (get_code method))) of
                     Inl e \<Rightarrow> Inl e
                   | Inr summary \<Rightarrow>
                       Inr (map_emplace method
                              (if no_optimizations method
                               then summary\<lparr>effects := effects summary OR EFF_NO_OPTIMIZE\<rparr>
                               else summary)
                              summary_cmap')))))"
| "analyze_callees [] call_graph ptrs_fp_iter_map visiting acc = Inr acc"
| "analyze_callees (edge # edges) call_graph ptrs_fp_iter_map visiting (invoke_to_summary_cmap, summary_cmap) =
     (case analyze_method_recursive (callee edge) call_graph ptrs_fp_iter_map visiting summary_cmap of
        Inl e \<Rightarrow> Inl e
      | Inr summary_cmap' \<Rightarrow>
          analyze_callees edges call_graph ptrs_fp_iter_map visiting
            (case summary_cmap' (callee edge) of
               Some callee_summary \<Rightarrow>
                 (map_emplace (invoke_insn edge) callee_summary invoke_to_summary_cmap, summary_cmap')
             | None \<Rightarrow> (invoke_to_summary_cmap, summary_cmap')))"
  by pat_completeness auto
termination
  apply (relation "(\<lambda>x. case x of
                      Inl (method, call_graph, _, visiting, _) \<Rightarrow> card (graph_nodes call_graph - visiting)
                    | Inr (_, call_graph, _, visiting, _) \<Rightarrow> card (graph_nodes call_graph - visiting))
                 <*mlex*> measure (\<lambda>x. case x of Inl _ \<Rightarrow> 0 | Inr (edges, _) \<Rightarrow> Suc (length edges))")
    apply (rule wf_mlex, rule wf_measure)
   apply (simp_all add: mlex_prod_def card_visiting_less)
  done

section \<open>Constant materialization\<close>

text \<open>
  Modelled from the spec: the constant domains are not among the sources. A
  signed-constant domain is bottom, top, "a non-degenerate range" or an exact
  constant; a string domain is bottom, top or a known string. \<open>get_constant\<close> gives
  the constant of a domain that holds exactly one, and nothing otherwise.
\<close>

datatype SignedConstantDomain =
    SignedConstant_Bottom
  | SignedConstant_Constant "64 word"
  | SignedConstant_Range
  | SignedConstant_Top

datatype StringDomain =
    String_Bottom
  | String_Constant string
  | String_Top

fun get_constant :: "SignedConstantDomain \<Rightarrow> 64 word option" where
  "get_constant (SignedConstant_Constant c) = Some c"
| "get_constant _ = None"

fun get_string_constant :: "StringDomain \<Rightarrow> string option" where
  "get_string_constant (String_Constant s) = Some s"
| "get_string_constant _ = None"

text \<open>
  A \<open>ConstantValue\<close> is a variant over the domains; the visitor has one overload for
  each of the two domains above and a template for every other domain.
\<close>

datatype 'other ConstantValue =
    SignedConstantDomain_value SignedConstantDomain
  | StringDomain_value StringDomain
  | OtherDomain_value 'other

text \<open>
  \<open>new IRInstruction(op)\<close>: an instruction with no operand set yet, at the address
  the allocator gives.
\<close>

definition new_IRInstruction :: "nat \<Rightarrow> IROpcode \<Rightarrow> IRInstruction" where
  "new_IRInstruction addr op =
     \<lparr>insn_addr = addr, opcode = op, srcs = [], dest = 0, literal = 0, string_data = None\<rparr>"

text \<open>
  \<open>value_to_instruction_visitor(original)\<close> applied to a value. \<open>dest_is_wide\<close> is
  the instruction's own method of that name (a table over the opcodes, not among
  the sources); \<open>addr\<close> and \<open>addr'\<close> are the addresses of the objects made by \<open>new\<close>.
\<close>

fun value_to_instruction_visitor ::
  "(IRInstruction \<Rightarrow> bool) \<Rightarrow> nat \<Rightarrow> nat \<Rightarrow> IRInstruction \<Rightarrow> 'other ConstantValue
     \<Rightarrow> IRInstruction list" where
  "value_to_instruction_visitor dest_is_wide addr addr' m_original (SignedConstantDomain_value domain) =
     (case get_constant domain of
        None \<Rightarrow> []
      | Some cst \<Rightarrow>
          [(new_IRInstruction addr (if dest_is_wide m_original then OPCODE_CONST_WIDE else OPCODE_CONST))
             \<lparr>literal := cst, dest := dest m_original\<rparr>])"
| "value_to_instruction_visitor dest_is_wide addr addr' m_original (StringDomain_value domain) =
     (case get_string_constant domain of
        None \<Rightarrow> []
      | Some cst \<Rightarrow>
          [(new_IRInstruction addr OPCODE_CONST_STRING)\<lparr>string_data := Some cst\<rparr>,
           (new_IRInstruction addr' IOPCODE_MOVE_RESULT_PSEUDO_OBJECT)\<lparr>dest := dest m_original\<rparr>])"
| "value_to_instruction_visitor dest_is_wide addr addr' m_original (OtherDomain_value domain) = []"

section \<open>Required configuration parameters\<close>

text \<open>
  \<open>m_parser\<close> looks a parameter up in the configuration being parsed; \<open>as\<close> is the
  coercion \<open>Configurable::as<T>\<close> of a JSON value (its specializations are not
  among the sources, and a coercion may fail); \<open>reflect\<close> is the reflection of a
  parameter, which records its schema with the reflector and leaves the
  destination alone. The destination is passed in (\<open>dest'\<close>, the parameter \<open>dest\<close>) and returned.
\<close>

type_synonym bindflags_t = "64 word"

record ('json, 'a, 'r) Configurable =
  get_config_name :: string
  m_parser :: "string \<Rightarrow> 'json option"
  m_reflecting :: bool
  m_reflector :: 'r
  as :: "'json \<Rightarrow> bindflags_t \<Rightarrow> error + 'a"
  reflect :: "'r \<Rightarrow> string \<Rightarrow> string \<Rightarrow> bool \<Rightarrow> bindflags_t \<Rightarrow> 'a \<Rightarrow> 'r"

definition parse_required ::
  "('json, 'a, 'r) Configurable \<Rightarrow> string \<Rightarrow> 'a \<Rightarrow> bindflags_t \<Rightarrow> error + 'a" where
  "parse_required this name dest' bindflags =
     (case m_parser this name of
        Some v \<Rightarrow> bind_err (as this v bindflags) (\<lambda>parsed. Inr parsed)
      | None \<Rightarrow>
          Inl (always_assert_log_failed
                 (''Missing required parameter: '' @ get_config_name this @ ''.'' @ name)))"

text \<open>\<open>bind_required\<close> returns the destination and the reflector (\<open>dest'\<close> is the parameter \<open>dest\<close>).\<close>

definition bind_required ::
  "('json, 'a, 'r) Configurable \<Rightarrow> string \<Rightarrow> 'a \<Rightarrow> string \<Rightarrow> bindflags_t \<Rightarrow> error + 'a \<times> 'r" where
  "bind_required this name dest' doc bindflags =
     (if m_reflecting this
      then Inr (dest', reflect this (m_reflector this) name doc True bindflags dest')
      else bind_err (parse_required this name dest' bindflags) (\<lambda>parsed. Inr (parsed, m_reflector this)))"

section \<open>The classification of a heap write, in the words of the specification\<close>

text \<open>
  A write through a register is an escaping write when the pointer's value is not
  a concrete set or some allocation site of the set may have escaped; the
  parameters it modifies are the indices of the allocation sites of the set that
  have not escaped and are load-param-object instructions.
\<close>

definition escaping_write :: "Environment \<Rightarrow> reg_t \<Rightarrow> bool" where
  "escaping_write env reg =
     (case get_pointers env reg of
        PointerSet_Value sites \<Rightarrow> \<exists>a \<in> set sites. may_have_escaped env a
      | _ \<Rightarrow> True)"

definition params_written :: "('e::len, 'p::len) SummaryBuilder \<Rightarrow> Environment \<Rightarrow> reg_t \<Rightarrow> 'p word set" where
  "params_written b env reg =
     (case get_pointers env reg of
        PointerSet_Value sites \<Rightarrow>
          {idx. \<exists>a \<in> set sites. \<not> may_have_escaped env a
                  \<and> opcode a = IOPCODE_LOAD_PARAM_OBJECT \<and> m_param_insn_map b a = Some idx}
      | _ \<Rightarrow> {})"

text \<open>
  The summary the driver publishes for a method, given the result of the
  instruction scan: the last step of \<open>analyze_method_recursive\<close>.
\<close>

definition publish :: "DexMethod \<Rightarrow> ('e::len, 'p::len) Summary \<Rightarrow> ('e, 'p) Summary" where
  "publish method scan =
     (if no_optimizations method then scan\<lparr>effects := effects scan OR EFF_NO_OPTIMIZE\<rparr> else scan)"

section \<open>A small method\<close>

text \<open>
  One parameter (register 0, which in the example environment may also hold a
  local allocation), a field write through register 0 and a static call with
  register 0 as its argument. No allocation site has escaped; register 1 points
  to nothing.
\<close>

definition example_param :: IRInstruction where
  "example_param = (new_IRInstruction 1 IOPCODE_LOAD_PARAM_OBJECT)\<lparr>dest := 0\<rparr>"

definition example_local :: IRInstruction where
  "example_local = (new_IRInstruction 2 (OPCODE_OTHER 0))\<lparr>dest := 1\<rparr>"

definition example_iput :: IRInstruction where
  "example_iput = (new_IRInstruction 3 OPCODE_IPUT)\<lparr>srcs := [2, 0]\<rparr>"

definition example_invoke :: IRInstruction where
  "example_invoke = (new_IRInstruction 4 OPCODE_INVOKE_STATIC)\<lparr>srcs := [0]\<rparr>"

definition example_env :: Environment where
  "example_env =
     \<lparr>is_bottom = False,
      get_pointers = (\<lambda>r. if r = 0 then PointerSet_Value [example_param, example_local]
                          else if r = 1 then PointerSet_Value []
                          else PointerSet_Top),
      may_have_escaped = (\<lambda>_. False)\<rparr>"

definition example_fp_iter :: FixpointIterator where
  "example_fp_iter =
     \<lparr>get_entry_state_at = (\<lambda>_. example_env), analyze_instruction = (\<lambda>_ env. env)\<rparr>"

definition example_code :: "IRInstruction list \<Rightarrow> IRCode" where
  "example_code insns =
     \<lparr>get_param_instructions = [example_param],
      cfg_blocks = [\<lparr>block_id = 0, block_insns = example_param # insns\<rparr>]\<rparr>"

definition example_builder :: "(64, 16) InvokeToSummaryMap \<Rightarrow> (64, 16) SummaryBuilder" where
  "example_builder invoke_to_summary = SummaryBuilder invoke_to_summary example_fp_iter (example_code [example_iput, example_invoke])"

text \<open>
  Two methods that call each other: \<open>A\<close> writes a field of its parameter and calls
  \<open>B\<close>; \<open>B\<close> is marked do-not-optimize and calls \<open>A\<close>.
\<close>

definition example_invoke_B :: IRInstruction where
  "example_invoke_B = (new_IRInstruction 5 OPCODE_INVOKE_VIRTUAL)\<lparr>srcs := [0]\<rparr>"

definition example_method_A :: DexMethod where
  "example_method_A =
     \<lparr>method_addr = 10, get_code = Some (example_code [example_iput, example_invoke]),
      no_optimizations = False\<rparr>"

definition example_method_B :: DexMethod where
  "example_method_B =
     \<lparr>method_addr = 11, get_code = Some (example_code [example_invoke_B]),
      no_optimizations = True\<rparr>"

definition example_graph :: Graph where
  "example_graph =
     [(example_method_A, [\<lparr>callee = example_method_B, invoke_insn = example_invoke\<rparr>]),
      (example_method_B, [\<lparr>callee = example_method_A, invoke_insn = example_invoke_B\<rparr>])]"

section \<open>Decimal strings\<close>












section \<open>Serialization of summaries\<close>

lemma unat_numeral_le: "unat (numeral k :: 'a::len word) \<le> numeral k"
  by (simp add: unat_numeral)


lemma for_each_map: "for_each f (map h xs) s = for_each (\<lambda>s i. f s (h i)) xs s"
  by (induction xs arbitrary: s) (simp_all add: bind_err_def split: sum.splits)

lemma for_each_cong:
  "(\<And>s x. x \<in> set xs \<Longrightarrow> f s x = g s x) \<Longrightarrow> for_each f xs s = for_each g xs s"
  by (induction xs arbitrary: s) (simp_all add: bind_err_def split: sum.splits)

lemma for_each_nth:
  "for_each (\<lambda>s i. f s (xs ! i)) [0..<length xs] s = for_each f xs s"
  using for_each_map [of f "(!) xs" "[0..<length xs]" s] by (simp add: map_nth)


lemma for_each_s_expr_at:
  "for_each (\<lambda>s i. bind_err (s_expr_at (List xs) i) (h s)) [0..<length xs] s0 = for_each h xs s0"
proof -
  have "for_each (\<lambda>s i. bind_err (s_expr_at (List xs) i) (h s)) [0..<length xs] s0
        = for_each (\<lambda>s i. h s (xs ! i)) [0..<length xs] s0"
    by (rule for_each_cong) (simp add: bind_err_def)
  then show ?thesis by (simp add: for_each_nth)
qed

lemma emplace_set: "set (emplace x xs) = insert x (set xs)"
  by (auto simp: emplace_def)



lemma parse_params_ok_iff:
  fixes s :: "('e::len, 'p::len) Summary"
  shows "(\<exists>s'. for_each (\<lambda>summary x. bind_err (get_int32 x) (\<lambda>k.
              Inr (summary\<lparr>modified_params := emplace (ucast k) (modified_params summary)\<rparr>)))
            xs s = Inr s') \<longleftrightarrow> (\<forall>x \<in> set xs. \<exists>k. x = Int32Atom k)"
proof (induction xs arbitrary: s)
  case Nil
  then show ?case by simp
next
  case (Cons x xs)
  show ?case
  proof (cases x)
    case (Int32Atom k)
    then show ?thesis using Cons.IH by (simp add: bind_err_def)
  next
    case (StringAtom t)
    then show ?thesis by (simp add: bind_err_def)
  next
    case (List ys)
    then show ?thesis by (simp add: bind_err_def)
  qed
qed

lemma length_two: "length ys = 2 \<Longrightarrow> \<exists>a b. ys = [a, b]"
  by (cases ys; simp) (metis length_0_conv length_Suc_conv)

lemma sum_cases_error: "(\<exists>e. r = Inl e) \<longleftrightarrow> \<not> (\<exists>s. r = Inr s)"
  by (cases r) auto

lemma from_s_expr_accepts_iff:
  "(\<exists>s. (from_s_expr expr :: error + ('e::len, 'p::len) Summary) = Inr s) \<longleftrightarrow>
     (\<exists>t xs. expr = List [StringAtom t, List xs] \<and> (\<exists>v. stoi t = Inr v)
        \<and> (\<forall>x \<in> set xs. \<exists>k. x = Int32Atom k))"
proof (cases expr)
  case (Int32Atom k)
  then show ?thesis by (simp add: from_s_expr_def bind_err_def)
next
  case (StringAtom t)
  then show ?thesis by (simp add: from_s_expr_def bind_err_def)
next
  case (List ys)
  show ?thesis
  proof (cases "length ys = 2")
    case False
    then have "\<And>t xs. ys \<noteq> [StringAtom t, List xs]" by auto
    with False List show ?thesis
      by (simp add: from_s_expr_def bind_err_def always_assert_def)
  next
    case True
    then obtain e0 e1 where ys: "ys = [e0, e1]" using length_two by blast
    show ?thesis
    proof (cases e0)
      case (StringAtom t)
      show ?thesis
      proof (cases e1)
        case (List xs)
        show ?thesis
        proof (cases "stoi t")
          case (Inl e)
          then show ?thesis
            using \<open>expr = List ys\<close> ys StringAtom List
            by (simp add: from_s_expr_def bind_err_def always_assert_def)
        next
          case (Inr v)
          let ?s0 = "default_Summary\<lparr>effects := word_of_int v\<rparr> :: ('e, 'p) Summary"
          have "from_s_expr expr = for_each (\<lambda>summary x. bind_err (get_int32 x) (\<lambda>k.
              Inr (summary\<lparr>modified_params := emplace (ucast k) (modified_params summary)\<rparr>)))
            xs ?s0"
            using \<open>expr = List ys\<close> ys StringAtom List Inr
              for_each_s_expr_at [of xs "\<lambda>summary x. bind_err (get_int32 x) (\<lambda>k.
              Inr (summary\<lparr>modified_params := emplace (ucast k) (modified_params summary)\<rparr>))" ?s0]
            by (simp add: from_s_expr_def bind_err_def always_assert_def)
          then show ?thesis
            using parse_params_ok_iff [of xs ?s0] \<open>expr = List ys\<close> ys StringAtom List Inr
            by simp
        qed
      qed (use \<open>expr = List ys\<close> ys StringAtom in
            \<open>simp_all add: from_s_expr_def bind_err_def always_assert_def split: sum.splits\<close>)
    qed (use \<open>expr = List ys\<close> ys in
          \<open>simp_all add: from_s_expr_def bind_err_def always_assert_def\<close>)
  qed
qed







text \<open>
  C6, as stated, fails: the effect field \<open>12abc\<close> is not a decimal integer, and
  \<open>from_s_expr\<close> returns a Summary with effects 12 for it, since \<open>std::stoi\<close> reads
  the leading digits and ignores the rest.
\<close>

theorem from_s_expr_accepts_trailing_garbage:
  "(from_s_expr (List [StringAtom ''12abc'', List []]) :: error + (64, 16) Summary)
     = Inr \<lparr>effects = 12, modified_params = []\<rparr>
   \<and> \<not> list_all isdigit ''12abc''"
  by (simp add: from_s_expr_def bind_err_def always_assert_def default_Summary_def stoi_def
      isspace_def isdigit_def digits_value_def digit_val_def)

text \<open>
  C6, amended: \<open>from_s_expr\<close> fails on exactly the inputs that are not a list of
  two elements of which the first is a string atom that \<open>std::stoi\<close> can read (white
  space, an optional sign, at least one digit, a value within \<open>int\<close>; what follows
  the digits is ignored) and the second is a list of integer atoms. On these
  inputs it fails and returns no Summary.
\<close>

theorem from_s_expr_rejects_iff:
  "(\<exists>e. (from_s_expr expr :: error + ('e::len, 'p::len) Summary) = Inl e) \<longleftrightarrow>
     \<not> (\<exists>t xs. expr = List [StringAtom t, List xs] \<and> (\<exists>v. stoi t = Inr v)
          \<and> (\<forall>x \<in> set xs. \<exists>k. x = Int32Atom k))"
  using from_s_expr_accepts_iff [of expr, where 'e = 'e and 'p = 'p]
    sum_cases_error [of "from_s_expr expr :: error + ('e, 'p) Summary"]
  by simp

theorem from_s_expr_rejects_iff_witness:
  "(\<exists>e. (from_s_expr (List [StringAtom ''abc'', List []]) :: error + (64, 16) Summary) = Inl e)
   \<and> (\<exists>e. (from_s_expr (List [StringAtom ''7'', List [StringAtom ''x'']]) :: error + (64, 16) Summary) = Inl e)
   \<and> (\<exists>e. (from_s_expr (List [StringAtom ''7'']) :: error + (64, 16) Summary) = Inl e)
   \<and> \<not> (\<exists>e. (from_s_expr (List [StringAtom ''7'', List [Int32Atom 1]]) :: error + (64, 16) Summary) = Inl e)"
proof -
  have 1: "\<not> (\<exists>v. stoi ''abc'' = Inr v)"
    by (simp add: stoi_def isspace_def isdigit_def)
  have 2: "stoi ''7'' = Inr 7"
    by (simp add: stoi_def isspace_def isdigit_def digits_value_def digit_val_def)
  show ?thesis
    using from_s_expr_rejects_iff [of "List [StringAtom ''abc'', List []]", where 'e = 64 and 'p = 16]
      from_s_expr_rejects_iff [of "List [StringAtom ''7'', List [StringAtom ''x'']]", where 'e = 64 and 'p = 16]
      from_s_expr_rejects_iff [of "List [StringAtom ''7'']", where 'e = 64 and 'p = 16]
      from_s_expr_rejects_iff [of "List [StringAtom ''7'', List [Int32Atom 1]]", where 'e = 64 and 'p = 16]
      1 2
    by simp
qed

section \<open>The effects of one instruction\<close>

lemma classify_elements:
  fixes b :: "('e::len, 'p::len) SummaryBuilder"
  shows "if \<forall>a \<in> set sites. \<not> may_have_escaped env a \<and> opcode a = IOPCODE_LOAD_PARAM_OBJECT
                \<longrightarrow> m_param_insn_map b a \<noteq> None
         then \<exists>s'. for_each (classify_element b env) sites summary = Inr s'
                \<and> effects s' = (if \<exists>a \<in> set sites. may_have_escaped env a
                                 then effects summary OR EFF_WRITE_MAY_ESCAPE else effects summary)
                \<and> set (modified_params s') = set (modified_params summary)
                     \<union> {idx. \<exists>a \<in> set sites. \<not> may_have_escaped env a
                                \<and> opcode a = IOPCODE_LOAD_PARAM_OBJECT \<and> m_param_insn_map b a = Some idx}
         else for_each (classify_element b env) sites summary = Inl out_of_range"
proof (induction sites arbitrary: summary)
  case Nil
  then show ?case by simp
next
  case (Cons a sites)
  show ?case
  proof (cases "may_have_escaped env a")
    case True
    let ?s1 = "summary\<lparr>effects := effects summary OR EFF_WRITE_MAY_ESCAPE\<rparr>"
    have step: "classify_element b env summary a = Inr ?s1"
      using True by (simp add: classify_element_def)
    show ?thesis
      using Cons.IH [of ?s1] True step
      by (auto simp: bind_err_def or.assoc)
  next
    case False
    show ?thesis
    proof (cases "opcode a = IOPCODE_LOAD_PARAM_OBJECT")
      case lpo: True
      show ?thesis
      proof (cases "m_param_insn_map b a")
        case None
        then have "classify_element b env summary a = Inl out_of_range"
          using False lpo by (simp add: classify_element_def)
        then show ?thesis using None False lpo by (auto simp: bind_err_def)
      next
        case (Some idx)
        let ?s1 = "summary\<lparr>modified_params := emplace idx (modified_params summary)\<rparr>"
        have step: "classify_element b env summary a = Inr ?s1"
          using False lpo Some by (simp add: classify_element_def)
        show ?thesis
          using Cons.IH [of ?s1] False lpo Some step
          by (auto simp: bind_err_def emplace_set)
      qed
    next
      case nlpo: False
      have step: "classify_element b env summary a = Inr summary"
        using False nlpo by (simp add: classify_element_def)
      show ?thesis
        using Cons.IH [of summary] False nlpo step
        by (auto simp: bind_err_def)
    qed
  qed
qed

lemma analyze_heap_write:
  assumes "opcode insn \<in> {OPCODE_IPUT, OPCODE_IPUT_WIDE, OPCODE_IPUT_BOOLEAN, OPCODE_IPUT_BYTE,
             OPCODE_IPUT_CHAR, OPCODE_IPUT_SHORT, OPCODE_IPUT_OBJECT,
             OPCODE_APUT, OPCODE_APUT_WIDE, OPCODE_APUT_BOOLEAN, OPCODE_APUT_BYTE,
             OPCODE_APUT_CHAR, OPCODE_APUT_SHORT, OPCODE_APUT_OBJECT, OPCODE_FILL_ARRAY_DATA}"
  shows "analyze_instruction_effects b env insn summary =
           bind_err (src insn (if opcode insn = OPCODE_FILL_ARRAY_DATA then 0 else 1))
             (\<lambda>r. classify_heap_write b env r summary)"
  using assms by (auto simp: analyze_instruction_effects_def)

lemma analyze_unknown_invoke:
  assumes "opcode insn \<in> {OPCODE_INVOKE_SUPER, OPCODE_INVOKE_INTERFACE}
           \<or> opcode insn \<in> {OPCODE_INVOKE_STATIC, OPCODE_INVOKE_DIRECT, OPCODE_INVOKE_VIRTUAL}
               \<and> m_invoke_to_summary_cmap b insn = None"
  shows "analyze_instruction_effects b env insn summary =
           Inr (summary\<lparr>effects := effects summary OR EFF_UNKNOWN_INVOKE\<rparr>)"
  using assms by (auto simp: analyze_instruction_effects_def)

lemma analyze_known_invoke:
  assumes "opcode insn \<in> {OPCODE_INVOKE_STATIC, OPCODE_INVOKE_DIRECT, OPCODE_INVOKE_VIRTUAL}"
    and "m_invoke_to_summary_cmap b insn = Some callee_summary"
  shows "analyze_instruction_effects b env insn summary =
           for_each (\<lambda>summary idx.
               bind_err (src insn (unat idx)) (\<lambda>r. classify_heap_write b env r summary))
             (modified_params callee_summary)
             (summary\<lparr>effects := effects summary OR effects callee_summary\<rparr>)"
  using assms by (auto simp: analyze_instruction_effects_def)

lemma classify_heap_write_result:
  assumes "classify_heap_write b env reg summary = Inr s'"
  shows "effects s' = (if escaping_write env reg then effects summary OR EFF_WRITE_MAY_ESCAPE
                       else effects summary)
         \<and> set (modified_params s') = set (modified_params summary) \<union> params_written b env reg"
proof (cases "get_pointers env reg")
  case (PointerSet_Value sites)
  with assms classify_elements [of sites env b summary] show ?thesis
    by (auto simp: classify_heap_write_def escaping_write_def params_written_def split: if_splits)
qed (use assms in \<open>auto simp: classify_heap_write_def escaping_write_def params_written_def\<close>)

lemma reclassify_loop:
  fixes b :: "('e::len, 'p::len) SummaryBuilder"
  assumes "for_each (\<lambda>summary idx.
               bind_err (src insn (unat idx)) (\<lambda>r. classify_heap_write b env r summary))
             idxs s0 = Inr s'"
  shows "\<exists>regs. map (\<lambda>idx. src insn (unat idx)) idxs = map Inr regs
           \<and> effects s' = (if \<exists>r \<in> set regs. escaping_write env r
                            then effects s0 OR EFF_WRITE_MAY_ESCAPE else effects s0)
           \<and> set (modified_params s') = set (modified_params s0) \<union> (\<Union>r \<in> set regs. params_written b env r)"
  using assms
proof (induction idxs arbitrary: s0)
  case Nil
  then show ?case by simp
next
  case (Cons idx idxs)
  from Cons.prems obtain r s1 where
    r: "src insn (unat idx) = Inr r"
    and s1: "classify_heap_write b env r s0 = Inr s1"
    and rest: "for_each (\<lambda>summary idx.
               bind_err (src insn (unat idx)) (\<lambda>r. classify_heap_write b env r summary))
             idxs s1 = Inr s'"
    by (auto simp: bind_err_def split: sum.splits)
  from Cons.IH [OF rest] obtain regs where
    regs: "map (\<lambda>idx. src insn (unat idx)) idxs = map Inr regs"
    and eff: "effects s' = (if \<exists>r \<in> set regs. escaping_write env r
                            then effects s1 OR EFF_WRITE_MAY_ESCAPE else effects s1)"
    and mp: "set (modified_params s') = set (modified_params s1) \<union> (\<Union>r \<in> set regs. params_written b env r)"
    by blast
  note first = classify_heap_write_result [OF s1]
  have "map (\<lambda>idx. src insn (unat idx)) (idx # idxs) = map Inr (r # regs)"
    using r regs by simp
  moreover have "effects s' = (if \<exists>r \<in> set (r # regs). escaping_write env r
                            then effects s0 OR EFF_WRITE_MAY_ESCAPE else effects s0)"
    using eff first by (auto simp: or.assoc)
  moreover have "set (modified_params s') = set (modified_params s0) \<union> (\<Union>r \<in> set (r # regs). params_written b env r)"
    using mp first by auto
  ultimately show ?case by blast
qed

lemma or_and_absorb: "((e :: 'a::len word) OR f) AND f = f"
  by (simp add: bit_eq_iff bit_and_iff bit_or_iff)

lemmas example_defs =
  example_param_def example_local_def example_iput_def example_invoke_def example_env_def
  example_fp_iter_def example_code_def example_builder_def new_IRInstruction_def
  SummaryBuilder_def map_emplace_def src_def default_Summary_def

text \<open>
  C1: an instance-field, array-element or bulk-array write analysed by the summary
  builder is classified through the register written through (source 1, or
  source 0 of fill-array-data). If the pointer value of that register is not a
  concrete set, the effects gain escaping-write and nothing else changes.
  Otherwise the builder returns when every non-escaped load-param-object site of
  the set is a parameter instruction of the method (the map lookup fails
  otherwise), and then the effects gain escaping-write exactly when some site of
  the set may have escaped, and the indices added to \<open>modified_params\<close> are exactly
  those of the non-escaped load-param-object sites; a non-escaped site that is
  not a parameter adds nothing.
\<close>

theorem heap_write_classified:
  fixes b :: "('e::len, 'p::len) SummaryBuilder"
  assumes "opcode insn \<in> {OPCODE_IPUT, OPCODE_IPUT_WIDE, OPCODE_IPUT_BOOLEAN, OPCODE_IPUT_BYTE,
             OPCODE_IPUT_CHAR, OPCODE_IPUT_SHORT, OPCODE_IPUT_OBJECT,
             OPCODE_APUT, OPCODE_APUT_WIDE, OPCODE_APUT_BOOLEAN, OPCODE_APUT_BYTE,
             OPCODE_APUT_CHAR, OPCODE_APUT_SHORT, OPCODE_APUT_OBJECT, OPCODE_FILL_ARRAY_DATA}"
    and "src insn (if opcode insn = OPCODE_FILL_ARRAY_DATA then 0 else 1) = Inr reg"
  shows "case get_pointers env reg of
           PointerSet_Value sites \<Rightarrow>
             (if \<forall>a \<in> set sites. \<not> may_have_escaped env a \<and> opcode a = IOPCODE_LOAD_PARAM_OBJECT
                    \<longrightarrow> m_param_insn_map b a \<noteq> None
              then \<exists>s'. analyze_instruction_effects b env insn summary = Inr s'
                     \<and> effects s' = (if \<exists>a \<in> set sites. may_have_escaped env a
                                      then effects summary OR EFF_WRITE_MAY_ESCAPE else effects summary)
                     \<and> set (modified_params s') = set (modified_params summary)
                          \<union> {idx. \<exists>a \<in> set sites. \<not> may_have_escaped env a
                                     \<and> opcode a = IOPCODE_LOAD_PARAM_OBJECT
                                     \<and> m_param_insn_map b a = Some idx}
              else analyze_instruction_effects b env insn summary = Inl out_of_range)
         | PointerSet_Bottom \<Rightarrow>
             analyze_instruction_effects b env insn summary
               = Inr (summary\<lparr>effects := effects summary OR EFF_WRITE_MAY_ESCAPE\<rparr>)
         | PointerSet_Top \<Rightarrow>
             analyze_instruction_effects b env insn summary
               = Inr (summary\<lparr>effects := effects summary OR EFF_WRITE_MAY_ESCAPE\<rparr>)"
proof -
  have eq: "analyze_instruction_effects b env insn summary = classify_heap_write b env reg summary"
    using analyze_heap_write [OF assms(1), of b env summary] assms(2) by (simp add: bind_err_def)
  show ?thesis
  proof (cases "get_pointers env reg")
    case (PointerSet_Value sites)
    then show ?thesis
      using classify_elements [of sites env b summary] eq
      by (simp add: classify_heap_write_def)
  qed (simp_all add: eq classify_heap_write_def)
qed

theorem heap_write_classified_witness:
  "opcode example_iput = OPCODE_IPUT
   \<and> src example_iput 1 = Inr 0
   \<and> (\<exists>s'. analyze_instruction_effects (example_builder Map.empty) example_env example_iput default_Summary = Inr s'
          \<and> effects s' = 0 \<and> set (modified_params s') = {0})"
proof -
  have 1: "opcode example_iput \<in> {OPCODE_IPUT, OPCODE_IPUT_WIDE, OPCODE_IPUT_BOOLEAN, OPCODE_IPUT_BYTE,
             OPCODE_IPUT_CHAR, OPCODE_IPUT_SHORT, OPCODE_IPUT_OBJECT,
             OPCODE_APUT, OPCODE_APUT_WIDE, OPCODE_APUT_BOOLEAN, OPCODE_APUT_BYTE,
             OPCODE_APUT_CHAR, OPCODE_APUT_SHORT, OPCODE_APUT_OBJECT, OPCODE_FILL_ARRAY_DATA}"
    by (simp add: example_defs)
  have 2: "src example_iput (if opcode example_iput = OPCODE_FILL_ARRAY_DATA then 0 else 1) = Inr 0"
    by (simp add: example_defs)
  have 3: "{idx. Some 0 = Some idx} = {0 :: 16 word}" by auto
  show ?thesis
    using heap_write_classified [OF 1 2, where env = example_env and b = "example_builder Map.empty"
        and summary = default_Summary]
    by (simp add: example_defs 3)
qed

text \<open>
  The index the map of the builder gives a parameter instruction is its position
  among the parameter instructions of the code (these are distinct objects); no
  other instruction has an entry.
\<close>

lemma param_insn_map_loop_keeps:
  "m x = Some v \<Longrightarrow> param_insn_map_loop ps k m x = Some v"
proof (induction ps arbitrary: k m)
  case Nil
  then show ?case by simp
next
  case (Cons p ps)
  have "map_emplace p (of_nat k) m x = Some v"
    using Cons.prems by (auto simp: map_emplace_def)
  then show ?case using Cons.IH by simp
qed

lemma param_insn_map_loop_other:
  "x \<notin> set ps \<Longrightarrow> param_insn_map_loop ps k m x = m x"
  by (induction ps arbitrary: k m) (auto simp: map_emplace_def)

lemma param_insn_map_loop_index:
  "distinct ps \<Longrightarrow> i < length ps \<Longrightarrow> m (ps ! i) = None
     \<Longrightarrow> param_insn_map_loop ps k m (ps ! i) = Some (of_nat (k + i))"
proof (induction ps arbitrary: k m i)
  case Nil
  then show ?case by simp
next
  case (Cons p ps)
  show ?case
  proof (cases i)
    case 0
    with Cons.prems show ?thesis
      by (simp add: param_insn_map_loop_keeps map_emplace_def)
  next
    case (Suc j)
    with Cons.prems have "ps ! j \<noteq> p" and "j < length ps" and "distinct ps"
      by auto
    with Cons.prems Suc Cons.IH [of j "map_emplace p (of_nat k) m" "k + 1"]
    show ?thesis by (simp add: map_emplace_def)
  qed
qed

theorem param_instruction_indices:
  fixes b :: "('e::len, 'p::len) SummaryBuilder"
  assumes "b = SummaryBuilder invoke_to_summary_cmap ptrs_fp_iter code"
    and "distinct (get_param_instructions code)"
  shows "(\<forall>i < length (get_param_instructions code).
            m_param_insn_map b (get_param_instructions code ! i) = Some (of_nat i))
         \<and> (\<forall>insn. insn \<notin> set (get_param_instructions code) \<longrightarrow> m_param_insn_map b insn = None)"
  using assms
  by (auto simp: SummaryBuilder_def param_insn_map_loop_other
      param_insn_map_loop_index [where k = 0 and m = Map.empty, simplified])

theorem param_instruction_indices_witness:
  "distinct (get_param_instructions (example_code []))
   \<and> m_param_insn_map (example_builder Map.empty) example_param = Some 0
   \<and> m_param_insn_map (example_builder Map.empty) example_iput = None"
proof -
  have d: "distinct (get_param_instructions (example_code [example_iput, example_invoke]))"
    by (simp add: example_code_def)
  have b: "example_builder Map.empty
             = SummaryBuilder Map.empty example_fp_iter (example_code [example_iput, example_invoke])"
    by (simp add: example_builder_def)
  from param_instruction_indices [OF b d] show ?thesis
    by (auto simp: example_code_def example_param_def example_iput_def new_IRInstruction_def)
qed

text \<open>
  C9: when the pointer value of the register written through is a concrete but
  empty set of allocation sites, \<open>classify_heap_write\<close> returns the summary
  unchanged: no effect bit is set and no parameter index is recorded.
\<close>

theorem empty_pointer_set_no_effect:
  "get_pointers env reg = PointerSet_Value [] \<Longrightarrow> classify_heap_write b env reg summary = Inr summary"
  by (simp add: classify_heap_write_def)

theorem empty_pointer_set_no_effect_witness:
  "get_pointers example_env 1 = PointerSet_Value []
   \<and> classify_heap_write (example_builder Map.empty) example_env 1 default_Summary = Inr default_Summary"
proof -
  have 1: "get_pointers example_env 1 = PointerSet_Value []"
    by (simp add: example_env_def)
  show ?thesis
    using 1 empty_pointer_set_no_effect [OF 1, where b = "example_builder Map.empty"
        and summary = default_Summary]
    by simp
qed

text \<open>
  C2: for an invoke-super or invoke-interface instruction, and for an
  invoke-static, invoke-direct or invoke-virtual instruction that has no entry in
  the invoke-to-summary map, the analysis of the instruction returns the summary
  with the unknown-invoke effect set (and nothing else changed).
\<close>

theorem unknown_invoke_fallback:
  assumes "opcode insn \<in> {OPCODE_INVOKE_SUPER, OPCODE_INVOKE_INTERFACE}
           \<or> opcode insn \<in> {OPCODE_INVOKE_STATIC, OPCODE_INVOKE_DIRECT, OPCODE_INVOKE_VIRTUAL}
               \<and> m_invoke_to_summary_cmap b insn = None"
  shows "\<exists>s'. analyze_instruction_effects b env insn summary = Inr s'
           \<and> effects s' = effects summary OR EFF_UNKNOWN_INVOKE
           \<and> effects s' AND EFF_UNKNOWN_INVOKE = EFF_UNKNOWN_INVOKE
           \<and> modified_params s' = modified_params summary"
  using analyze_unknown_invoke [OF assms, of env summary] by (simp add: or_and_absorb)

theorem unknown_invoke_fallback_witness:
  "opcode example_invoke = OPCODE_INVOKE_STATIC
   \<and> m_invoke_to_summary_cmap (example_builder Map.empty) example_invoke = None
   \<and> (\<exists>s'. analyze_instruction_effects (example_builder Map.empty) example_env example_invoke default_Summary = Inr s'
          \<and> effects s' = 8 \<and> modified_params s' = [])"
proof -
  have 1: "opcode example_invoke = OPCODE_INVOKE_STATIC"
    and 2: "m_invoke_to_summary_cmap (example_builder Map.empty) example_invoke = None"
    by (simp_all add: example_defs)
  then have "opcode example_invoke \<in> {OPCODE_INVOKE_SUPER, OPCODE_INVOKE_INTERFACE}
           \<or> opcode example_invoke \<in> {OPCODE_INVOKE_STATIC, OPCODE_INVOKE_DIRECT, OPCODE_INVOKE_VIRTUAL}
               \<and> m_invoke_to_summary_cmap (example_builder Map.empty) example_invoke = None"
    by simp
  from unknown_invoke_fallback [OF this, where env = example_env and summary = default_Summary] 1 2
  show ?thesis
    by (auto simp: default_Summary_def EFF_UNKNOWN_INVOKE_def)
qed

text \<open>
  C3: for an invoke-static, invoke-direct or invoke-virtual instruction whose
  callee summary is in the invoke-to-summary map, the builder ORs the callee's
  whole effects bitset into the caller's summary and then, for each index \<open>i\<close> of
  the callee's \<open>modified_params\<close>, classifies a heap write through the \<open>i\<close>-th
  source register of the invoke in the caller's environment. When that returns,
  every effect of the callee is in the result, escaping-write is added exactly
  when one of these registers gives an escaping write, and the parameters modified
  are those of the caller's summary and those written through these registers.
\<close>

theorem known_invoke_imports_callee:
  fixes b :: "('e::len, 'p::len) SummaryBuilder"
  assumes "opcode insn \<in> {OPCODE_INVOKE_STATIC, OPCODE_INVOKE_DIRECT, OPCODE_INVOKE_VIRTUAL}"
    and "m_invoke_to_summary_cmap b insn = Some callee_summary"
  shows "analyze_instruction_effects b env insn summary =
           for_each (\<lambda>summary idx.
               bind_err (src insn (unat idx)) (\<lambda>r. classify_heap_write b env r summary))
             (modified_params callee_summary)
             (summary\<lparr>effects := effects summary OR effects callee_summary\<rparr>)
         \<and> (\<forall>s'. analyze_instruction_effects b env insn summary = Inr s' \<longrightarrow>
               (\<exists>regs. map (\<lambda>idx. src insn (unat idx)) (modified_params callee_summary) = map Inr regs
                  \<and> effects s' = effects summary OR effects callee_summary
                       OR (if \<exists>r \<in> set regs. escaping_write env r then EFF_WRITE_MAY_ESCAPE else 0)
                  \<and> effects s' AND effects callee_summary = effects callee_summary
                  \<and> set (modified_params s') = set (modified_params summary)
                       \<union> (\<Union>r \<in> set regs. params_written b env r)))"
proof (intro conjI allI impI)
  show eq: "analyze_instruction_effects b env insn summary =
           for_each (\<lambda>summary idx.
               bind_err (src insn (unat idx)) (\<lambda>r. classify_heap_write b env r summary))
             (modified_params callee_summary)
             (summary\<lparr>effects := effects summary OR effects callee_summary\<rparr>)"
    by (rule analyze_known_invoke [OF assms])
  fix s'
  assume "analyze_instruction_effects b env insn summary = Inr s'"
  with eq have loop: "for_each (\<lambda>summary idx.
               bind_err (src insn (unat idx)) (\<lambda>r. classify_heap_write b env r summary))
             (modified_params callee_summary)
             (summary\<lparr>effects := effects summary OR effects callee_summary\<rparr>) = Inr s'"
    by simp
  from reclassify_loop [OF loop] obtain regs where
    regs: "map (\<lambda>idx. src insn (unat idx)) (modified_params callee_summary) = map Inr regs"
    and eff: "effects s' = (if \<exists>r \<in> set regs. escaping_write env r
                 then (effects summary OR effects callee_summary) OR EFF_WRITE_MAY_ESCAPE
                 else effects summary OR effects callee_summary)"
    and mp: "set (modified_params s') = set (modified_params summary) \<union> (\<Union>r \<in> set regs. params_written b env r)"
    by auto
  have "effects s' AND effects callee_summary = effects callee_summary"
    using eff by (auto simp: bit_eq_iff bit_and_iff bit_or_iff)
  then show "\<exists>regs. map (\<lambda>idx. src insn (unat idx)) (modified_params callee_summary) = map Inr regs
                  \<and> effects s' = effects summary OR effects callee_summary
                       OR (if \<exists>r \<in> set regs. escaping_write env r then EFF_WRITE_MAY_ESCAPE else 0)
                  \<and> effects s' AND effects callee_summary = effects callee_summary
                  \<and> set (modified_params s') = set (modified_params summary)
                       \<union> (\<Union>r \<in> set regs. params_written b env r)"
    using regs eff mp by (intro exI [of _ regs]) (simp add: or.assoc)
qed

theorem known_invoke_imports_callee_witness:
  "opcode example_invoke = OPCODE_INVOKE_STATIC
   \<and> m_invoke_to_summary_cmap
        (example_builder [example_invoke \<mapsto> \<lparr>effects = EFF_THROWS, modified_params = [0]\<rparr>])
        example_invoke = Some \<lparr>effects = EFF_THROWS, modified_params = [0]\<rparr>
   \<and> analyze_instruction_effects
        (example_builder [example_invoke \<mapsto> \<lparr>effects = EFF_THROWS, modified_params = [0]\<rparr>])
        example_env example_invoke default_Summary = Inr \<lparr>effects = 1, modified_params = [0]\<rparr>"
proof -
  let ?b = "example_builder [example_invoke \<mapsto> \<lparr>effects = EFF_THROWS, modified_params = [0]\<rparr>]"
  have 1: "opcode example_invoke \<in> {OPCODE_INVOKE_STATIC, OPCODE_INVOKE_DIRECT, OPCODE_INVOKE_VIRTUAL}"
    and 2: "m_invoke_to_summary_cmap ?b example_invoke = Some \<lparr>effects = EFF_THROWS, modified_params = [0]\<rparr>"
    by (simp_all add: example_defs)
  from known_invoke_imports_callee [OF 1 2, where env = example_env and summary = default_Summary] 2
  show ?thesis
    by (simp add: example_defs bind_err_def classify_heap_write_def classify_element_def
        emplace_def EFF_THROWS_def)
qed

section \<open>Effects are only ever added\<close>

lemma and_trans: "(a :: 'a::len word) AND b = b \<Longrightarrow> c AND a = a \<Longrightarrow> c AND b = b"
  by (metis and.assoc)

lemma or_and_left: "((e :: 'a::len word) OR f) AND e = e"
  by (simp add: bit_eq_iff bit_and_iff bit_or_iff)

lemma for_each_append:
  "for_each f (xs @ ys) s = bind_err (for_each f xs s) (for_each f ys)"
  by (induction xs arbitrary: s) (simp_all add: bind_err_def split: sum.splits)

lemma for_each_rel:
  assumes step: "\<And>s x s'. x \<in> set xs \<Longrightarrow> f s x = Inr s' \<Longrightarrow> R s s'"
    and refl: "\<And>s. R s s"
    and trans: "\<And>a b c. R a b \<Longrightarrow> R b c \<Longrightarrow> R a c"
    and run: "for_each f xs s = Inr s'"
  shows "R s s'"
  using step run
proof (induction xs arbitrary: s)
  case Nil
  then show ?case using refl by simp
next
  case (Cons x xs)
  from Cons.prems(2) obtain s1 where s1: "f s x = Inr s1" and rest: "for_each f xs s1 = Inr s'"
    by (auto simp: bind_err_def split: sum.splits)
  have "R s s1" using Cons.prems(1) [of x s s1] s1 by simp
  moreover have "R s1 s'"
    by (rule Cons.IH [OF _ rest]) (use Cons.prems(1) in auto)
  ultimately show ?case using trans by blast
qed

lemma for_each_hits:
  assumes step: "\<And>s y s'. y \<in> set xs \<Longrightarrow> f s y = Inr s' \<Longrightarrow> R s s'"
    and refl: "\<And>s. R s s"
    and trans: "\<And>a b c. R a b \<Longrightarrow> R b c \<Longrightarrow> R a c"
    and mem: "x \<in> set xs"
    and run: "for_each f xs s = Inr s'"
  shows "\<exists>s1 s2. f s1 x = Inr s2 \<and> R s2 s'"
proof -
  from mem obtain pre post where xs: "xs = pre @ x # post" by (meson split_list)
  from run xs obtain s1 s2 where "for_each f pre s = Inr s1" and s2: "f s1 x = Inr s2"
    and post: "for_each f post s2 = Inr s'"
    by (auto simp: for_each_append bind_err_def split: sum.splits)
  have "R s2 s'"
    by (rule for_each_rel [OF _ refl trans post]) (use step xs in auto)
  with s2 show ?thesis by blast
qed

lemma classify_element_mono:
  "classify_element b env s a = Inr s' \<Longrightarrow> effects s' AND effects s = effects s"
  by (auto simp: classify_element_def or_and_left split: if_splits option.splits)

lemma classify_heap_write_mono:
  assumes "classify_heap_write b env r s = Inr s'"
  shows "effects s' AND effects s = effects s"
proof (cases "get_pointers env r")
  case (PointerSet_Value sites)
  with assms have "for_each (classify_element b env) sites s = Inr s'"
    by (simp add: classify_heap_write_def)
  then show ?thesis
    by (rule for_each_rel [where R = "\<lambda>s s'. effects s' AND effects s = effects s", rotated 3])
       (auto intro: classify_element_mono and_trans)
qed (use assms in \<open>auto simp: classify_heap_write_def or_and_left\<close>)

lemma reclassify_mono:
  assumes "for_each (\<lambda>summary idx.
               bind_err (src insn (unat idx)) (\<lambda>r. classify_heap_write b env r summary))
             idxs s = Inr s'"
  shows "effects s' AND effects s = effects s"
  using assms
  by (rule for_each_rel [where R = "\<lambda>s s'. effects s' AND effects s = effects s", rotated 3])
     (auto simp: bind_err_def split: sum.splits intro: classify_heap_write_mono and_trans)

lemma analyze_instruction_effects_mono:
  assumes "analyze_instruction_effects b env insn s = Inr s'"
  shows "effects s' AND effects s = effects s"
proof -
  consider
    (hw) "opcode insn \<in> {OPCODE_IPUT, OPCODE_IPUT_WIDE, OPCODE_IPUT_BOOLEAN, OPCODE_IPUT_BYTE,
             OPCODE_IPUT_CHAR, OPCODE_IPUT_SHORT, OPCODE_IPUT_OBJECT,
             OPCODE_APUT, OPCODE_APUT_WIDE, OPCODE_APUT_BOOLEAN, OPCODE_APUT_BYTE,
             OPCODE_APUT_CHAR, OPCODE_APUT_SHORT, OPCODE_APUT_OBJECT, OPCODE_FILL_ARRAY_DATA}"
  | (inv) "opcode insn \<in> {OPCODE_INVOKE_STATIC, OPCODE_INVOKE_DIRECT, OPCODE_INVOKE_VIRTUAL}"
  | (other) "opcode insn \<notin> {OPCODE_IPUT, OPCODE_IPUT_WIDE, OPCODE_IPUT_BOOLEAN, OPCODE_IPUT_BYTE,
             OPCODE_IPUT_CHAR, OPCODE_IPUT_SHORT, OPCODE_IPUT_OBJECT,
             OPCODE_APUT, OPCODE_APUT_WIDE, OPCODE_APUT_BOOLEAN, OPCODE_APUT_BYTE,
             OPCODE_APUT_CHAR, OPCODE_APUT_SHORT, OPCODE_APUT_OBJECT, OPCODE_FILL_ARRAY_DATA,
             OPCODE_INVOKE_STATIC, OPCODE_INVOKE_DIRECT, OPCODE_INVOKE_VIRTUAL}"
    by blast
  then show ?thesis
  proof cases
    case hw
    from assms show ?thesis
      unfolding analyze_heap_write [OF hw]
      by (auto simp: bind_err_def split: sum.splits intro: classify_heap_write_mono)
  next
    case inv
    show ?thesis
    proof (cases "m_invoke_to_summary_cmap b insn")
      case None
      with inv assms show ?thesis
        using analyze_unknown_invoke [of insn b env s] by (auto simp: or_and_left)
    next
      case (Some cs)
      from assms reclassify_mono [of insn b env "modified_params cs"
          "s\<lparr>effects := effects s OR effects cs\<rparr>" s']
      have "effects s' AND (effects s OR effects cs) = effects s OR effects cs"
        unfolding analyze_known_invoke [OF inv Some] by simp
      then show ?thesis
        by (metis and_trans or_and_left and.commute)
    qed
  next
    case other
    with assms show ?thesis
      by (cases "opcode insn") (auto simp: analyze_instruction_effects_def or_and_left)
  qed
qed

lemma build_block_loop_mono:
  assumes "for_each (\<lambda>(summary, env) insn.
                bind_err (analyze_instruction_effects b env insn summary) (\<lambda>summary'.
                  Inr (summary', analyze_instruction (m_ptrs_fp_iter b) insn env)))
              insns (s, env) = Inr (s', env')"
  shows "effects s' AND effects s = effects s"
  using assms
  by (rule for_each_rel [where R = "\<lambda>p p'. effects (fst p') AND effects (fst p) = effects (fst p)"
        and s = "(s, env)" and s' = "(s', env')", simplified, rotated 2])
     (auto simp: bind_err_def split: sum.splits intro: analyze_instruction_effects_mono and_trans)

lemma build_block_mono:
  assumes "build_block b block s = Inr s'"
  shows "effects s' AND effects s = effects s"
proof (cases "is_bottom (get_entry_state_at (m_ptrs_fp_iter b) block)")
  case True
  with assms show ?thesis by (simp add: build_block_def)
next
  case False
  with assms obtain env' where
    "for_each (\<lambda>(summary, env) insn.
                bind_err (analyze_instruction_effects b env insn summary) (\<lambda>summary'.
                  Inr (summary', analyze_instruction (m_ptrs_fp_iter b) insn env)))
              (block_insns block) (s, get_entry_state_at (m_ptrs_fp_iter b) block) = Inr (s', env')"
    by (auto simp: build_block_def Let_def bind_err_def split: sum.splits)
  then show ?thesis by (rule build_block_loop_mono)
qed

lemma build_block_hits:
  assumes nb: "\<not> is_bottom (get_entry_state_at (m_ptrs_fp_iter b) block)"
    and mem: "insn \<in> set (block_insns block)"
    and run: "build_block b block s = Inr s'"
  shows "\<exists>env s1 s2. analyze_instruction_effects b env insn s1 = Inr s2
           \<and> effects s' AND effects s2 = effects s2"
proof -
  let ?f = "\<lambda>(summary, env) insn.
                bind_err (analyze_instruction_effects b env insn summary) (\<lambda>summary'.
                  Inr (summary', analyze_instruction (m_ptrs_fp_iter b) insn env))"
  from run nb obtain env' where
    loop: "for_each ?f (block_insns block) (s, get_entry_state_at (m_ptrs_fp_iter b) block) = Inr (s', env')"
    by (auto simp: build_block_def Let_def bind_err_def split: sum.splits)
  have "\<exists>p1 p2. ?f p1 insn = Inr p2 \<and> effects (fst (s', env')) AND effects (fst p2) = effects (fst p2)"
    by (rule for_each_hits [where R = "\<lambda>p p'. effects (fst p') AND effects (fst p) = effects (fst p)",
          OF _ _ _ mem loop])
       (auto simp: bind_err_def split: sum.splits intro: analyze_instruction_effects_mono and_trans)
  then obtain s1 env1 p2 where p2: "?f (s1, env1) insn = Inr p2"
    and le: "effects s' AND effects (fst p2) = effects (fst p2)"
    by auto
  from p2 obtain s2 where "analyze_instruction_effects b env1 insn s1 = Inr s2" and "fst p2 = s2"
    by (cases "analyze_instruction_effects b env1 insn s1") (auto simp: bind_err_def)
  with le show ?thesis by auto
qed

lemma build_hits:
  assumes blk: "block \<in> set (cfg_blocks (m_code b))"
    and nb: "\<not> is_bottom (get_entry_state_at (m_ptrs_fp_iter b) block)"
    and mem: "insn \<in> set (block_insns block)"
    and run: "build b = Inr s'"
  shows "\<exists>env s1 s2. analyze_instruction_effects b env insn s1 = Inr s2
           \<and> effects s' AND effects s2 = effects s2"
proof -
  have "\<exists>s1 s2. build_block b block s1 = Inr s2 \<and> effects s' AND effects s2 = effects s2"
    by (rule for_each_hits [where R = "\<lambda>s s'. effects s' AND effects s = effects s"
          and f = "\<lambda>summary block. build_block b block summary", OF _ _ _ blk run [unfolded build_def]])
       (auto intro: build_block_mono and_trans)
  then obtain s1 s2 where b2: "build_block b block s1 = Inr s2"
    and le: "effects s' AND effects s2 = effects s2" by blast
  from build_block_hits [OF nb mem b2] obtain env t1 t2 where
    "analyze_instruction_effects b env insn t1 = Inr t2" and "effects s2 AND effects t2 = effects t2"
    by blast
  with le show ?thesis by (meson and_trans)
qed

lemma build_invoke_unknown:
  assumes blk: "block \<in> set (cfg_blocks (m_code b))"
    and nb: "\<not> is_bottom (get_entry_state_at (m_ptrs_fp_iter b) block)"
    and mem: "insn \<in> set (block_insns block)"
    and op: "opcode insn \<in> {OPCODE_INVOKE_SUPER, OPCODE_INVOKE_INTERFACE,
               OPCODE_INVOKE_STATIC, OPCODE_INVOKE_DIRECT, OPCODE_INVOKE_VIRTUAL}"
    and callee: "\<And>cs. opcode insn \<in> {OPCODE_INVOKE_STATIC, OPCODE_INVOKE_DIRECT, OPCODE_INVOKE_VIRTUAL}
                   \<Longrightarrow> m_invoke_to_summary_cmap b insn = Some cs
                   \<Longrightarrow> effects cs AND EFF_UNKNOWN_INVOKE = EFF_UNKNOWN_INVOKE"
    and run: "build b = Inr s'"
  shows "effects s' AND EFF_UNKNOWN_INVOKE = EFF_UNKNOWN_INVOKE"
proof -
  from build_hits [OF blk nb mem run] obtain env s1 s2 where
    a: "analyze_instruction_effects b env insn s1 = Inr s2"
    and le: "effects s' AND effects s2 = effects s2" by blast
  have "effects s2 AND EFF_UNKNOWN_INVOKE = EFF_UNKNOWN_INVOKE"
  proof (cases "opcode insn \<in> {OPCODE_INVOKE_STATIC, OPCODE_INVOKE_DIRECT, OPCODE_INVOKE_VIRTUAL}
                \<and> m_invoke_to_summary_cmap b insn \<noteq> None")
    case True
    then obtain cs where cs: "m_invoke_to_summary_cmap b insn = Some cs" by auto
    from True have inv: "opcode insn \<in> {OPCODE_INVOKE_STATIC, OPCODE_INVOKE_DIRECT, OPCODE_INVOKE_VIRTUAL}"
      by simp
    from a reclassify_mono [of insn b env "modified_params cs"
        "s1\<lparr>effects := effects s1 OR effects cs\<rparr>" s2]
    have "effects s2 AND (effects s1 OR effects cs) = effects s1 OR effects cs"
      unfolding analyze_known_invoke [OF inv cs] by simp
    moreover have "(effects s1 OR effects cs) AND effects cs = effects cs"
      by (simp add: or_and_absorb)
    ultimately have "effects s2 AND effects cs = effects cs" by (meson and_trans)
    with callee [OF inv cs] show ?thesis by (meson and_trans)
  next
    case False
    with op have "opcode insn \<in> {OPCODE_INVOKE_SUPER, OPCODE_INVOKE_INTERFACE}
           \<or> opcode insn \<in> {OPCODE_INVOKE_STATIC, OPCODE_INVOKE_DIRECT, OPCODE_INVOKE_VIRTUAL}
               \<and> m_invoke_to_summary_cmap b insn = None"
      by auto
    from analyze_unknown_invoke [OF this, of env s1] a show ?thesis
      by (auto simp: or_and_absorb)
  qed
  with le show ?thesis by (meson and_trans)
qed

section \<open>The driver\<close>

declare analyze_method_recursive.simps [simp del]

lemma analysis_total: "All (analyze_method_recursive_analyze_callees_dom :: (_ + _ \<times> _ \<times> _ \<times> _ \<times> ((IRInstruction \<rightharpoonup> ('e::len, 'p::len) Summary) \<times> _)) \<Rightarrow> bool)"
  apply (relation "(\<lambda>x. case x of
                      Inl (method, call_graph, _, visiting, _) \<Rightarrow> card (graph_nodes call_graph - visiting)
                    | Inr (_, call_graph, _, visiting, _) \<Rightarrow> card (graph_nodes call_graph - visiting))
                 <*mlex*> measure (\<lambda>x. case x of Inl _ \<Rightarrow> 0 | Inr (edges, _) \<Rightarrow> Suc (length edges))")
    apply (rule wf_mlex, rule wf_measure)
   apply (simp_all add: mlex_prod_def card_visiting_less)
  done

lemma analyze_frame:
  fixes summary_cmap :: "('e::len, 'p::len) SummaryConcurrentMap"
    and acc :: "('e, 'p) InvokeToSummaryMap \<times> ('e, 'p) SummaryConcurrentMap"
  shows "analyze_method_recursive m call_graph fpm visiting summary_cmap = Inr cmap'
           \<Longrightarrow> k \<in> visiting \<or> summary_cmap k \<noteq> None \<Longrightarrow> cmap' k = summary_cmap k"
    and "analyze_callees edges call_graph fpm visiting acc = Inr acc'
           \<Longrightarrow> k \<in> visiting \<or> snd acc k \<noteq> None \<Longrightarrow> snd acc' k = snd acc k"
proof (induction m call_graph fpm visiting summary_cmap and edges call_graph fpm visiting acc
        arbitrary: cmap' and acc' rule: analyze_method_recursive_analyze_callees.induct)
  case (1 m call_graph fpm visiting summary_cmap)
  show ?case
  proof (cases "summary_cmap m \<noteq> None \<or> m \<in> visiting \<or> get_code m = None")
    case True
    with "1.prems" show ?thesis
      by (subst (asm) analyze_method_recursive.simps) auto
  next
    case False
    then have km: "k \<noteq> m" using "1.prems"(2) by auto
    show ?thesis
    proof (cases "map_of call_graph m")
      case None
      with False "1.prems"(1) km show ?thesis
        by (subst (asm) analyze_method_recursive.simps)
           (auto simp: map_emplace_def split: sum.splits option.splits if_splits)
    next
      case (Some es)
      from False Some "1.prems"(1) obtain inv cmap1 pub where
        loop: "analyze_callees es call_graph fpm (insert m visiting) (Map.empty, summary_cmap) = Inr (inv, cmap1)"
        and res: "cmap' = map_emplace m pub cmap1"
        by (subst (asm) analyze_method_recursive.simps)
           (auto split: sum.splits option.splits if_splits)
      from "1.IH" [OF False Some loop] "1.prems"(2) have "cmap1 k = summary_cmap k" by auto
      with res km show ?thesis by (simp add: map_emplace_def)
    qed
  qed
next
  case (2 call_graph fpm visiting acc)
  then show ?case by simp
next
  case (3 edge edges call_graph fpm visiting invoke_to_summary_cmap summary_cmap)
  from "3.prems"(1) obtain b where
    first: "analyze_method_recursive (callee edge) call_graph fpm visiting summary_cmap = Inr b"
    and rest: "analyze_callees edges call_graph fpm visiting
            (case b (callee edge) of
               Some callee_summary \<Rightarrow>
                 (map_emplace (invoke_insn edge) callee_summary invoke_to_summary_cmap, b)
             | None \<Rightarrow> (invoke_to_summary_cmap, b)) = Inr acc'"
    by (auto split: sum.splits)
  have bk: "b k = summary_cmap k"
    using "3.IH"(1) [OF first] "3.prems"(2) by simp
  have "snd acc' k = b k"
    using "3.IH"(2) [OF first rest] "3.prems"(2) bk by (auto split: option.splits)
  with bk show ?case by simp
qed

lemma analyze_method_step:
  fixes summary_cmap :: "('e::len, 'p::len) SummaryConcurrentMap"
  assumes fresh: "summary_cmap method = None" "method \<notin> visiting" "get_code method = Some code"
    and run: "analyze_method_recursive method call_graph fpm visiting summary_cmap = Inr cmap'"
  shows "\<exists>inv cmap1 fp scan.
           (case map_of call_graph method of
              None \<Rightarrow> Inr (Map.empty, summary_cmap)
            | Some callee_edges \<Rightarrow>
                analyze_callees callee_edges call_graph fpm (insert method visiting)
                  (Map.empty, summary_cmap)) = Inr (inv, cmap1)
           \<and> fpm method = Some fp
           \<and> build (SummaryBuilder inv fp code) = Inr scan
           \<and> cmap1 method = None
           \<and> cmap' = cmap1(method \<mapsto> publish method scan)"
proof -
  from fresh run obtain inv cmap1 fp scan where
    loop: "(case map_of call_graph method of
              None \<Rightarrow> Inr (Map.empty, summary_cmap)
            | Some callee_edges \<Rightarrow>
                analyze_callees callee_edges call_graph fpm (insert method visiting)
                  (Map.empty, summary_cmap)) = Inr (inv, cmap1)"
    and fp: "fpm method = Some fp"
    and scan: "build (SummaryBuilder inv fp code) = Inr scan"
    and res: "cmap' = map_emplace method (publish method scan) cmap1"
    by (subst (asm) analyze_method_recursive.simps)
       (auto simp: publish_def split: sum.splits option.splits if_splits)
  have "cmap1 method = None"
  proof (cases "map_of call_graph method")
    case None
    with loop fresh show ?thesis by simp
  next
    case (Some es)
    with loop analyze_frame(2) [of es call_graph fpm "insert method visiting"
        "(Map.empty, summary_cmap)" "(inv, cmap1)" "method"] fresh
    show ?thesis by simp
  qed
  with loop fp scan res show ?thesis by (auto simp: map_emplace_def)
qed

lemma publish_scan: "effects (publish method scan) AND effects scan = effects scan"
  by (simp add: publish_def or_and_left)

lemma mutual_recursion_summaries:
  fixes summary_cmap :: "('e::len, 'p::len) SummaryConcurrentMap"
  assumes ab: "A \<noteq> B"
    and edges: "map_of call_graph A = Some [eAB]" "map_of call_graph B = Some [eBA]"
      "callee eAB = B" "callee eBA = A"
    and fresh: "summary_cmap A = None" "summary_cmap B = None" "A \<notin> visiting" "B \<notin> visiting"
    and code: "get_code A = Some codeA" "get_code B = Some codeB"
    and fp: "fpm A = Some fpA" "fpm B = Some fpB"
    and callA: "blockA \<in> set (cfg_blocks codeA)" "\<not> is_bottom (get_entry_state_at fpA blockA)"
      "invoke_insn eAB \<in> set (block_insns blockA)"
      "opcode (invoke_insn eAB) \<in> {OPCODE_INVOKE_SUPER, OPCODE_INVOKE_INTERFACE,
          OPCODE_INVOKE_STATIC, OPCODE_INVOKE_DIRECT, OPCODE_INVOKE_VIRTUAL}"
    and callB: "blockB \<in> set (cfg_blocks codeB)" "\<not> is_bottom (get_entry_state_at fpB blockB)"
      "invoke_insn eBA \<in> set (block_insns blockB)"
      "opcode (invoke_insn eBA) \<in> {OPCODE_INVOKE_SUPER, OPCODE_INVOKE_INTERFACE,
          OPCODE_INVOKE_STATIC, OPCODE_INVOKE_DIRECT, OPCODE_INVOKE_VIRTUAL}"
    and run: "analyze_method_recursive A call_graph fpm visiting summary_cmap = Inr cmap'"
  shows "\<exists>sA sB. cmap' A = Some sA \<and> cmap' B = Some sB
           \<and> effects sA AND EFF_UNKNOWN_INVOKE = EFF_UNKNOWN_INVOKE
           \<and> effects sB AND EFF_UNKNOWN_INVOKE = EFF_UNKNOWN_INVOKE
           \<and> m_invoke_to_summary_cmap (SummaryBuilder Map.empty fpB codeB :: ('e, 'p) SummaryBuilder)
                (invoke_insn eBA) = None"
proof -
  \<comment> \<open>the analysis of A\<close>
  from analyze_method_step [OF fresh(1) fresh(3) code(1) run] edges(1) fp(1)
  obtain invA cmap1 scanA where
    loopA: "analyze_callees [eAB] call_graph fpm (insert A visiting) (Map.empty, summary_cmap)
              = Inr (invA, cmap1)"
    and scanA: "build (SummaryBuilder invA fpA codeA) = Inr scanA"
    and resA: "cmap' = cmap1(A \<mapsto> publish A scanA)"
    by auto
  from loopA edges(3) obtain b where
    runB: "analyze_method_recursive B call_graph fpm (insert A visiting) summary_cmap = Inr b"
    and accA: "(invA, cmap1) = (case b B of
                  Some callee_summary \<Rightarrow> (map_emplace (invoke_insn eAB) callee_summary Map.empty, b)
                | None \<Rightarrow> (Map.empty, b))"
    by (auto split: sum.splits)
  \<comment> \<open>the analysis of B, with A on the path\<close>
  have B_path: "B \<notin> insert A visiting" using ab fresh(4) by auto
  from analyze_method_step [OF fresh(2) B_path code(2) runB] edges(2) fp(2)
  obtain invB cmapB scanB where
    loopB: "analyze_callees [eBA] call_graph fpm (insert B (insert A visiting)) (Map.empty, summary_cmap)
              = Inr (invB, cmapB)"
    and scanB: "build (SummaryBuilder invB fpB codeB) = Inr scanB"
    and resB: "b = cmapB(B \<mapsto> publish B scanB)"
    by auto
  have returns: "analyze_method_recursive A call_graph fpm (insert B (insert A visiting)) summary_cmap
                = Inr summary_cmap"
    by (subst analyze_method_recursive.simps) simp
  from loopB returns edges(4) fresh(1) have invB: "invB = Map.empty" and cmapB: "cmapB = summary_cmap"
    by auto
  have uB: "effects scanB AND EFF_UNKNOWN_INVOKE = EFF_UNKNOWN_INVOKE"
    by (rule build_invoke_unknown [OF _ _ callB(3) callB(4) _ scanB])
       (use callB invB in \<open>simp_all add: SummaryBuilder_def\<close>)
  then have pB: "effects (publish B scanB) AND EFF_UNKNOWN_INVOKE = EFF_UNKNOWN_INVOKE"
    using publish_scan [of B scanB] by (meson and_trans)
  \<comment> \<open>back in A: the summary of B is imported\<close>
  from accA resB have invA: "invA = [invoke_insn eAB \<mapsto> publish B scanB]" and cmap1: "cmap1 = b"
    by (simp_all add: map_emplace_def)
  have uA: "effects scanA AND EFF_UNKNOWN_INVOKE = EFF_UNKNOWN_INVOKE"
    by (rule build_invoke_unknown [OF _ _ callA(3) callA(4) _ scanA])
       (use callA invA pB in \<open>simp_all add: SummaryBuilder_def\<close>)
  then have pA: "effects (publish A scanA) AND EFF_UNKNOWN_INVOKE = EFF_UNKNOWN_INVOKE"
    using publish_scan [of A scanA] by (meson and_trans)
  from resA cmap1 resB ab have "cmap' A = Some (publish A scanA)" "cmap' B = Some (publish B scanB)"
    by auto
  with pA pB show ?thesis by (simp add: SummaryBuilder_def)
qed

lemma mutual_recursion_run:
  fixes summary_cmap :: "('e::len, 'p::len) SummaryConcurrentMap"
  assumes ab: "A \<noteq> B"
    and edges: "map_of call_graph A = Some [eAB]" "map_of call_graph B = Some [eBA]"
      "callee eAB = B" "callee eBA = A"
    and fresh: "summary_cmap A = None" "summary_cmap B = None" "A \<notin> visiting" "B \<notin> visiting"
    and code: "get_code A = Some codeA" "get_code B = Some codeB"
    and fp: "fpm A = Some fpA" "fpm B = Some fpB"
  shows "analyze_method_recursive A call_graph fpm visiting summary_cmap =
           (case build (SummaryBuilder Map.empty fpB codeB) of
              Inl e \<Rightarrow> Inl e
            | Inr scanB \<Rightarrow>
                (case build (SummaryBuilder [invoke_insn eAB \<mapsto> publish B scanB] fpA codeA) of
                   Inl e \<Rightarrow> Inl e
                 | Inr scanA \<Rightarrow>
                     Inr (summary_cmap(B \<mapsto> publish B scanB, A \<mapsto> publish A scanA))))"
proof -
  have returns: "analyze_method_recursive A call_graph fpm (insert B (insert A visiting)) summary_cmap
                = Inr summary_cmap"
    by (subst analyze_method_recursive.simps) simp
  have runB: "analyze_method_recursive B call_graph fpm (insert A visiting) summary_cmap =
           (case build (SummaryBuilder Map.empty fpB codeB) of
              Inl e \<Rightarrow> Inl e
            | Inr scanB \<Rightarrow> Inr (summary_cmap(B \<mapsto> publish B scanB)))"
    using ab edges fresh code fp returns
    by (subst analyze_method_recursive.simps)
       (auto simp: publish_def map_emplace_def split: sum.splits)
  show ?thesis
    using ab edges fresh code fp runB
    by (subst analyze_method_recursive.simps)
       (auto simp: publish_def map_emplace_def split: sum.splits)
qed

lemmas example_run_defs =
  example_defs example_invoke_B_def build_def build_block_def analyze_instruction_effects_def
  classify_heap_write_def classify_element_def bind_err_def emplace_def publish_def
  EFF_UNKNOWN_INVOKE_def EFF_NO_OPTIMIZE_def

lemma example_scan_B_first:
  "build (SummaryBuilder Map.empty example_fp_iter (example_code [example_invoke_B]) :: (64, 16) SummaryBuilder)
     = Inr \<lparr>effects = 8, modified_params = []\<rparr>"
  by (simp add: example_run_defs)

lemma example_scan_A_second:
  "build (SummaryBuilder [example_invoke \<mapsto> \<lparr>effects = 24, modified_params = []\<rparr>] example_fp_iter
            (example_code [example_iput, example_invoke]) :: (64, 16) SummaryBuilder)
     = Inr \<lparr>effects = 24, modified_params = [0]\<rparr>"
  by (simp add: example_run_defs)

lemma example_scan_A_first:
  "build (SummaryBuilder Map.empty example_fp_iter
            (example_code [example_iput, example_invoke]) :: (64, 16) SummaryBuilder)
     = Inr \<lparr>effects = 8, modified_params = [0]\<rparr>"
  by (simp add: example_run_defs)

lemma example_scan_B_second:
  "build (SummaryBuilder [example_invoke_B \<mapsto> \<lparr>effects = 8, modified_params = [0]\<rparr>] example_fp_iter
            (example_code [example_invoke_B]) :: (64, 16) SummaryBuilder)
     = Inr \<lparr>effects = 8, modified_params = [0]\<rparr>"
  by (simp add: example_run_defs)

lemma example_run_from_B:
  "analyze_method_recursive example_method_B example_graph (\<lambda>_. Some example_fp_iter) {} Map.empty
     = Inr [example_method_A \<mapsto> \<lparr>effects = 8, modified_params = [0]\<rparr>,
            example_method_B \<mapsto> (\<lparr>effects = 24, modified_params = [0]\<rparr> :: (64, 16) Summary)]"
  using mutual_recursion_run [where A = example_method_B and B = example_method_A
        and call_graph = example_graph
        and eBA = "\<lparr>callee = example_method_B, invoke_insn = example_invoke\<rparr>"
        and eAB = "\<lparr>callee = example_method_A, invoke_insn = example_invoke_B\<rparr>"
        and summary_cmap = "Map.empty :: (64, 16) SummaryConcurrentMap" and visiting = "{}"
        and codeB = "example_code [example_iput, example_invoke]"
        and codeA = "example_code [example_invoke_B]"
        and fpm = "\<lambda>_. Some example_fp_iter" and fpA = example_fp_iter and fpB = example_fp_iter]
  by (simp add: example_method_A_def example_method_B_def example_graph_def publish_def
      EFF_NO_OPTIMIZE_def example_scan_A_first example_scan_A_second
      example_scan_B_first example_scan_B_second)

text \<open>
  The effect of one unresolved invoke carries over to the summary \<open>build\<close> returns:
  an invoke in a block whose entry state is not bottom, with no callee summary (or
  with super or interface dispatch), leaves unknown-invoke in the result. Blocks
  whose entry state is bottom are not scanned.
\<close>

theorem scanned_unknown_invoke_reaches_summary:
  assumes "block \<in> set (cfg_blocks (m_code b))"
    and "\<not> is_bottom (get_entry_state_at (m_ptrs_fp_iter b) block)"
    and "insn \<in> set (block_insns block)"
    and "opcode insn \<in> {OPCODE_INVOKE_SUPER, OPCODE_INVOKE_INTERFACE}
           \<or> opcode insn \<in> {OPCODE_INVOKE_STATIC, OPCODE_INVOKE_DIRECT, OPCODE_INVOKE_VIRTUAL}
               \<and> m_invoke_to_summary_cmap b insn = None"
    and "build b = Inr summary"
  shows "effects summary AND EFF_UNKNOWN_INVOKE = EFF_UNKNOWN_INVOKE"
  using assms(4)
  by (intro build_invoke_unknown [OF assms(1-3) _ _ assms(5)]) auto

theorem scanned_unknown_invoke_reaches_summary_witness:
  "build (example_builder Map.empty) = Inr \<lparr>effects = 8, modified_params = [0]\<rparr>
   \<and> (8 :: 64 word) AND EFF_UNKNOWN_INVOKE = EFF_UNKNOWN_INVOKE"
proof -
  have run: "build (example_builder Map.empty) = Inr \<lparr>effects = 8, modified_params = [0]\<rparr>"
    by (simp add: example_builder_def example_scan_A_first)
  have "effects \<lparr>effects = 8 :: 64 word, modified_params = [0 :: 16 word]\<rparr> AND EFF_UNKNOWN_INVOKE
          = EFF_UNKNOWN_INVOKE"
    by (rule scanned_unknown_invoke_reaches_summary [where b = "example_builder Map.empty"
          and insn = example_invoke
          and block = "\<lparr>block_id = 0, block_insns = [example_param, example_iput, example_invoke]\<rparr>",
          OF _ _ _ _ run])
       (simp_all add: example_defs)
  with run show ?thesis by simp
qed

text \<open>
  C8: for a method marked do-not-optimize that the driver analyses (it has no
  summary yet, has a body and is not on the recursion path), the summary the
  driver publishes is the result of the instruction scan with the no-optimize
  effect ORed in after the scan: no-optimize is set whatever the scan computed,
  every effect the scan found is still there, and the modified parameters are
  those of the scan.
\<close>

theorem no_optimize_checked_last:
  fixes summary_cmap :: "('e::len, 'p::len) SummaryConcurrentMap"
  assumes "no_optimizations method"
    and "summary_cmap method = None" and "method \<notin> visiting" and "get_code method = Some code"
    and "analyze_method_recursive method call_graph fpm visiting summary_cmap = Inr cmap'"
  shows "\<exists>inv fp scan published.
           fpm method = Some fp
           \<and> build (SummaryBuilder inv fp code) = Inr scan
           \<and> cmap' method = Some published
           \<and> published = scan\<lparr>effects := effects scan OR EFF_NO_OPTIMIZE\<rparr>
           \<and> effects published AND EFF_NO_OPTIMIZE = EFF_NO_OPTIMIZE
           \<and> effects published AND effects scan = effects scan
           \<and> modified_params published = modified_params scan"
proof -
  from analyze_method_step [OF assms(2-5)] obtain inv cmap1 fp scan where
    fp: "fpm method = Some fp" and scan: "build (SummaryBuilder inv fp code) = Inr scan"
    and res: "cmap' = cmap1(method \<mapsto> publish method scan)"
    by blast
  let ?published = "scan\<lparr>effects := effects scan OR EFF_NO_OPTIMIZE\<rparr>"
  have "cmap' method = Some ?published"
    using res assms(1) by (simp add: publish_def)
  then show ?thesis
    using fp scan
    by (intro exI [of _ inv] exI [of _ fp] exI [of _ scan] exI [of _ ?published])
       (simp add: or_and_left or_and_absorb)
qed

theorem no_optimize_checked_last_witness:
  "no_optimizations example_method_B
   \<and> analyze_method_recursive example_method_B example_graph (\<lambda>_. Some example_fp_iter) {} Map.empty
       = Inr [example_method_A \<mapsto> \<lparr>effects = 8, modified_params = [0]\<rparr>,
              example_method_B \<mapsto> (\<lparr>effects = 24, modified_params = [0]\<rparr> :: (64, 16) Summary)]
   \<and> (\<exists>inv scan.
         build (SummaryBuilder inv example_fp_iter (example_code [example_invoke_B]) :: (64, 16) SummaryBuilder)
           = Inr scan
         \<and> \<lparr>effects = 24, modified_params = [0]\<rparr> = scan\<lparr>effects := effects scan OR EFF_NO_OPTIMIZE\<rparr>)"
proof -
  have 1: "no_optimizations example_method_B"
    and 2: "(Map.empty :: (64, 16) SummaryConcurrentMap) example_method_B = None"
    and 3: "example_method_B \<notin> {}"
    and 4: "get_code example_method_B = Some (example_code [example_invoke_B])"
    by (simp_all add: example_method_B_def)
  have ne: "example_method_A \<noteq> example_method_B"
    by (simp add: example_method_A_def example_method_B_def)
  from no_optimize_checked_last [OF 1 2 3 4 example_run_from_B] ne 1 example_run_from_B
  show ?thesis by auto
qed

text \<open>
  C4: the recursion of \<open>analyze_method_recursive\<close> is well-founded from every
  input, whatever the call graph (every argument is in the domain of the
  recursion; the number of graph nodes not in \<open>visiting\<close> decreases along it). A
  method that has a summary, has no body or is in \<open>visiting\<close> returns at once with
  the map of summaries unchanged. For two methods \<open>A\<close> and \<open>B\<close> that call each other,
  the analysis started at \<open>A\<close> builds \<open>B\<close> with no summary for the back-edge call
  (\<open>A\<close> is on the path) and then \<open>A\<close> with the summary of \<open>B\<close>; unless a build fails,
  both get a summary, and where the two calls are in blocks the scan visits, both
  summaries have unknown-invoke set.
\<close>

theorem analyze_method_recursive_terminates:
  fixes summary_cmap :: "('e::len, 'p::len) SummaryConcurrentMap"
  shows
  "analyze_method_recursive_analyze_callees_dom
     (Inl (m, call_graph, fpm, visiting, summary_cmap))
   \<and> (summary_cmap m \<noteq> None \<or> m \<in> visiting \<or> get_code m = None
        \<longrightarrow> analyze_method_recursive m call_graph fpm visiting summary_cmap = Inr summary_cmap)
   \<and> (A \<noteq> B \<and> map_of call_graph A = Some [eAB] \<and> map_of call_graph B = Some [eBA]
        \<and> callee eAB = B \<and> callee eBA = A
        \<and> summary_cmap A = None \<and> summary_cmap B = None \<and> A \<notin> visiting \<and> B \<notin> visiting
        \<and> get_code A = Some codeA \<and> get_code B = Some codeB
        \<and> fpm A = Some fpA \<and> fpm B = Some fpB
        \<longrightarrow>
          analyze_method_recursive A call_graph fpm visiting summary_cmap =
            (case build (SummaryBuilder Map.empty fpB codeB) of
               Inl e \<Rightarrow> Inl e
             | Inr scanB \<Rightarrow>
                 (case build (SummaryBuilder [invoke_insn eAB \<mapsto> publish B scanB] fpA codeA) of
                    Inl e \<Rightarrow> Inl e
                  | Inr scanA \<Rightarrow>
                      Inr (summary_cmap(B \<mapsto> publish B scanB, A \<mapsto> publish A scanA))))
          \<and> (blockA \<in> set (cfg_blocks codeA) \<and> \<not> is_bottom (get_entry_state_at fpA blockA)
               \<and> invoke_insn eAB \<in> set (block_insns blockA)
               \<and> opcode (invoke_insn eAB) \<in> {OPCODE_INVOKE_SUPER, OPCODE_INVOKE_INTERFACE,
                    OPCODE_INVOKE_STATIC, OPCODE_INVOKE_DIRECT, OPCODE_INVOKE_VIRTUAL}
               \<and> blockB \<in> set (cfg_blocks codeB) \<and> \<not> is_bottom (get_entry_state_at fpB blockB)
               \<and> invoke_insn eBA \<in> set (block_insns blockB)
               \<and> opcode (invoke_insn eBA) \<in> {OPCODE_INVOKE_SUPER, OPCODE_INVOKE_INTERFACE,
                    OPCODE_INVOKE_STATIC, OPCODE_INVOKE_DIRECT, OPCODE_INVOKE_VIRTUAL}
               \<longrightarrow> (\<forall>cmap'. analyze_method_recursive A call_graph fpm visiting summary_cmap = Inr cmap'
                      \<longrightarrow> (\<exists>sA sB. cmap' A = Some sA \<and> cmap' B = Some sB
                             \<and> effects sA AND EFF_UNKNOWN_INVOKE = EFF_UNKNOWN_INVOKE
                             \<and> effects sB AND EFF_UNKNOWN_INVOKE = EFF_UNKNOWN_INVOKE))))"
proof (intro conjI impI allI)
  show "analyze_method_recursive_analyze_callees_dom
          (Inl (m, call_graph, fpm, visiting, summary_cmap))"
    using analysis_total by blast
next
  assume "summary_cmap m \<noteq> None \<or> m \<in> visiting \<or> get_code m = None"
  then show "analyze_method_recursive m call_graph fpm visiting summary_cmap = Inr summary_cmap"
    by (subst analyze_method_recursive.simps) simp
next
  assume "A \<noteq> B \<and> map_of call_graph A = Some [eAB] \<and> map_of call_graph B = Some [eBA]
        \<and> callee eAB = B \<and> callee eBA = A
        \<and> summary_cmap A = None \<and> summary_cmap B = None \<and> A \<notin> visiting \<and> B \<notin> visiting
        \<and> get_code A = Some codeA \<and> get_code B = Some codeB
        \<and> fpm A = Some fpA \<and> fpm B = Some fpB"
  then show "analyze_method_recursive A call_graph fpm visiting summary_cmap =
            (case build (SummaryBuilder Map.empty fpB codeB) of
               Inl e \<Rightarrow> Inl e
             | Inr scanB \<Rightarrow>
                 (case build (SummaryBuilder [invoke_insn eAB \<mapsto> publish B scanB] fpA codeA) of
                    Inl e \<Rightarrow> Inl e
                  | Inr scanA \<Rightarrow>
                      Inr (summary_cmap(B \<mapsto> publish B scanB, A \<mapsto> publish A scanA))))"
    by (intro mutual_recursion_run) blast+
next
  fix cmap'
  assume "A \<noteq> B \<and> map_of call_graph A = Some [eAB] \<and> map_of call_graph B = Some [eBA]
        \<and> callee eAB = B \<and> callee eBA = A
        \<and> summary_cmap A = None \<and> summary_cmap B = None \<and> A \<notin> visiting \<and> B \<notin> visiting
        \<and> get_code A = Some codeA \<and> get_code B = Some codeB
        \<and> fpm A = Some fpA \<and> fpm B = Some fpB"
    and "blockA \<in> set (cfg_blocks codeA) \<and> \<not> is_bottom (get_entry_state_at fpA blockA)
               \<and> invoke_insn eAB \<in> set (block_insns blockA)
               \<and> opcode (invoke_insn eAB) \<in> {OPCODE_INVOKE_SUPER, OPCODE_INVOKE_INTERFACE,
                    OPCODE_INVOKE_STATIC, OPCODE_INVOKE_DIRECT, OPCODE_INVOKE_VIRTUAL}
               \<and> blockB \<in> set (cfg_blocks codeB) \<and> \<not> is_bottom (get_entry_state_at fpB blockB)
               \<and> invoke_insn eBA \<in> set (block_insns blockB)
               \<and> opcode (invoke_insn eBA) \<in> {OPCODE_INVOKE_SUPER, OPCODE_INVOKE_INTERFACE,
                    OPCODE_INVOKE_STATIC, OPCODE_INVOKE_DIRECT, OPCODE_INVOKE_VIRTUAL}"
    and "analyze_method_recursive A call_graph fpm visiting summary_cmap = Inr cmap'"
  then show "\<exists>sA sB. cmap' A = Some sA \<and> cmap' B = Some sB
                             \<and> effects sA AND EFF_UNKNOWN_INVOKE = EFF_UNKNOWN_INVOKE
                             \<and> effects sB AND EFF_UNKNOWN_INVOKE = EFF_UNKNOWN_INVOKE"
    using mutual_recursion_summaries [of A B call_graph eAB eBA summary_cmap visiting codeA codeB
        fpm fpA fpB blockA blockB cmap']
    by blast
qed

theorem analyze_method_recursive_terminates_witness:
  "example_method_A \<noteq> example_method_B
   \<and> analyze_method_recursive_analyze_callees_dom
        (Inl (example_method_A, example_graph, \<lambda>_. Some example_fp_iter, {},
              (Map.empty :: (64, 16) SummaryConcurrentMap)))
   \<and> analyze_method_recursive example_method_A example_graph (\<lambda>_. Some example_fp_iter)
        {example_method_A} (Map.empty :: (64, 16) SummaryConcurrentMap) = Inr Map.empty
   \<and> analyze_method_recursive example_method_A example_graph (\<lambda>_. Some example_fp_iter) {} Map.empty
        = Inr [example_method_B \<mapsto> \<lparr>effects = 24, modified_params = []\<rparr>,
               example_method_A \<mapsto> (\<lparr>effects = 24, modified_params = [0]\<rparr> :: (64, 16) Summary)]
   \<and> (24 :: 64 word) AND EFF_UNKNOWN_INVOKE = EFF_UNKNOWN_INVOKE"
proof -
  note thm1 = analyze_method_recursive_terminates [where m = example_method_A
      and call_graph = example_graph and fpm = "\<lambda>_. Some example_fp_iter"
      and visiting = "{example_method_A}"
      and summary_cmap = "Map.empty :: (64, 16) SummaryConcurrentMap"]
  note thm2 = analyze_method_recursive_terminates [where m = example_method_A
      and A = example_method_A and B = example_method_B
      and call_graph = example_graph and fpm = "\<lambda>_. Some example_fp_iter"
      and visiting = "{}"
      and summary_cmap = "Map.empty :: (64, 16) SummaryConcurrentMap"
      and eAB = "\<lparr>callee = example_method_B, invoke_insn = example_invoke\<rparr>"
      and eBA = "\<lparr>callee = example_method_A, invoke_insn = example_invoke_B\<rparr>"
      and codeA = "example_code [example_iput, example_invoke]"
      and codeB = "example_code [example_invoke_B]"
      and fpA = example_fp_iter and fpB = example_fp_iter
      and blockA = "\<lparr>block_id = 0, block_insns = [example_param, example_iput, example_invoke]\<rparr>"
      and blockB = "\<lparr>block_id = 0, block_insns = [example_param, example_invoke_B]\<rparr>"]
  have ne: "example_method_A \<noteq> example_method_B"
    by (simp add: example_method_A_def example_method_B_def)
  have skip: "analyze_method_recursive example_method_A example_graph (\<lambda>_. Some example_fp_iter)
        {example_method_A} (Map.empty :: (64, 16) SummaryConcurrentMap) = Inr Map.empty"
    using thm1 by simp
  have run: "analyze_method_recursive example_method_A example_graph (\<lambda>_. Some example_fp_iter) {} Map.empty
        = Inr [example_method_B \<mapsto> \<lparr>effects = 24, modified_params = []\<rparr>,
               example_method_A \<mapsto> (\<lparr>effects = 24, modified_params = [0]\<rparr> :: (64, 16) Summary)]"
    using thm2 [THEN conjunct2, THEN conjunct2]
    by (simp add: example_method_A_def example_method_B_def example_graph_def publish_def
      EFF_NO_OPTIMIZE_def example_scan_A_second example_scan_B_first)
  have bits: "(24 :: 64 word) AND EFF_UNKNOWN_INVOKE = EFF_UNKNOWN_INVOKE"
    by (simp add: EFF_UNKNOWN_INVOKE_def)
  from ne thm2 [THEN conjunct1] skip run bits show ?thesis by simp
qed

section \<open>Constant materialization\<close>

text \<open>
  C7: for a signed-constant domain with an exact constant the visitor gives
  exactly one constant-load with the destination of the original instruction and
  that literal, the wide opcode if and only if the original's destination is
  wide; for a known string it gives exactly load-string followed by
  move-result-pseudo-object into the original's destination; for a domain without
  an exact constant (top, a range, bottom) and for any other domain it gives no
  instruction.
\<close>

theorem constant_materialization:
  "(\<forall>cst. get_constant domain = Some cst \<longrightarrow>
       (\<exists>insn. value_to_instruction_visitor dest_is_wide addr addr' original
                  (SignedConstantDomain_value domain) = [insn]
          \<and> opcode insn \<in> {OPCODE_CONST, OPCODE_CONST_WIDE}
          \<and> (opcode insn = OPCODE_CONST_WIDE \<longleftrightarrow> dest_is_wide original)
          \<and> dest insn = dest original \<and> literal insn = cst))
   \<and> (get_constant domain = None \<longrightarrow>
         value_to_instruction_visitor dest_is_wide addr addr' original
           (SignedConstantDomain_value domain) = [])
   \<and> (\<forall>cst. get_string_constant string_domain = Some cst \<longrightarrow>
       (\<exists>load move. value_to_instruction_visitor dest_is_wide addr addr' original
                  (StringDomain_value string_domain) = [load, move]
          \<and> opcode load = OPCODE_CONST_STRING \<and> string_data load = Some cst
          \<and> opcode move = IOPCODE_MOVE_RESULT_PSEUDO_OBJECT \<and> dest move = dest original))
   \<and> (get_string_constant string_domain = None \<longrightarrow>
         value_to_instruction_visitor dest_is_wide addr addr' original
           (StringDomain_value string_domain) = [])
   \<and> value_to_instruction_visitor dest_is_wide addr addr' original (OtherDomain_value other) = []
   \<and> get_constant (SignedConstant_Constant c) = Some c
   \<and> get_constant SignedConstant_Top = None
   \<and> get_constant SignedConstant_Range = None
   \<and> get_constant SignedConstant_Bottom = None
   \<and> get_string_constant (String_Constant s) = Some s
   \<and> get_string_constant String_Top = None
   \<and> get_string_constant String_Bottom = None"
  by (simp add: new_IRInstruction_def)

theorem constant_materialization_witness:
  "value_to_instruction_visitor (\<lambda>insn. dest insn = 4) 100 101
       ((new_IRInstruction 7 (OPCODE_OTHER 1))\<lparr>dest := 4\<rparr>)
       (SignedConstantDomain_value (SignedConstant_Constant 42) :: unit ConstantValue)
     = [\<lparr>insn_addr = 100, opcode = OPCODE_CONST_WIDE, srcs = [], dest = 4, literal = 42,
         string_data = None\<rparr>]
   \<and> value_to_instruction_visitor (\<lambda>insn. dest insn = 4) 100 101
       ((new_IRInstruction 7 (OPCODE_OTHER 1))\<lparr>dest := 4\<rparr>)
       (StringDomain_value (String_Constant ''abc'') :: unit ConstantValue)
     = [\<lparr>insn_addr = 100, opcode = OPCODE_CONST_STRING, srcs = [], dest = 0, literal = 0,
         string_data = Some ''abc''\<rparr>,
        \<lparr>insn_addr = 101, opcode = IOPCODE_MOVE_RESULT_PSEUDO_OBJECT, srcs = [], dest = 4,
         literal = 0, string_data = None\<rparr>]"
  using constant_materialization [where dest_is_wide = "\<lambda>insn. dest insn = 4" and addr = 100
      and addr' = 101 and original = "(new_IRInstruction 7 (OPCODE_OTHER 1))\<lparr>dest := 4\<rparr>"
      and domain = "SignedConstant_Constant 42" and string_domain = "String_Constant ''abc''"
      and other = "()"]
  by (simp add: new_IRInstruction_def)

section \<open>Required configuration parameters\<close>

text \<open>
  C10: when the configuration has no value for the parameter, \<open>parse_required\<close>
  fails with the assertion message "Missing required parameter:" followed by the
  name of the configurable, a dot and the name of the parameter, and so does
  \<open>bind_required\<close> when a configuration is being parsed; no destination is
  returned. When the value is present, the destination is what the coercion of
  the value gives.
\<close>

theorem parse_required_missing_fails:
  "(m_parser this name = None \<longrightarrow>
       parse_required this name dest' bindflags
         = Inl (always_assert_log_failed
                  (''Missing required parameter: '' @ get_config_name this @ ''.'' @ name))
       \<and> (\<not> m_reflecting this \<longrightarrow>
            bind_required this name dest' doc bindflags
              = Inl (always_assert_log_failed
                       (''Missing required parameter: '' @ get_config_name this @ ''.'' @ name))))
   \<and> (\<forall>v. m_parser this name = Some v \<longrightarrow>
          parse_required this name dest' bindflags = as this v bindflags
          \<and> (\<forall>parsed. as this v bindflags = Inr parsed \<and> \<not> m_reflecting this \<longrightarrow>
                bind_required this name dest' doc bindflags = Inr (parsed, m_reflector this)))"
  by (auto simp: parse_required_def bind_required_def bind_err_def split: sum.splits)

theorem parse_required_missing_fails_witness:
  "parse_required
     \<lparr>get_config_name = ''MyPass'', m_parser = (\<lambda>n. if n = ''max_size'' then Some (7 :: nat) else None),
      m_reflecting = False, m_reflector = (), as = (\<lambda>v _. Inr v), reflect = (\<lambda>r _ _ _ _ _. r)\<rparr>
     ''min_size'' 0 0
     = Inl (always_assert_log_failed ''Missing required parameter: MyPass.min_size'')
   \<and> bind_required
     \<lparr>get_config_name = ''MyPass'', m_parser = (\<lambda>n. if n = ''max_size'' then Some (7 :: nat) else None),
      m_reflecting = False, m_reflector = (), as = (\<lambda>v _. Inr v), reflect = (\<lambda>r _ _ _ _ _. r)\<rparr>
     ''min_size'' 0 ''doc'' 0
     = Inl (always_assert_log_failed ''Missing required parameter: MyPass.min_size'')
   \<and> bind_required
     \<lparr>get_config_name = ''MyPass'', m_parser = (\<lambda>n. if n = ''max_size'' then Some (7 :: nat) else None),
      m_reflecting = False, m_reflector = (), as = (\<lambda>v _. Inr v), reflect = (\<lambda>r _ _ _ _ _. r)\<rparr>
     ''max_size'' 0 ''doc'' 0
     = Inr (7, ())"
  using parse_required_missing_fails [where this = "\<lparr>get_config_name = ''MyPass'',
        m_parser = (\<lambda>n. if n = ''max_size'' then Some (7 :: nat) else None),
        m_reflecting = False, m_reflector = (), as = (\<lambda>v _. Inr v), reflect = (\<lambda>r _ _ _ _ _. r)\<rparr>"
      and name = "''min_size''" and dest' = 0 and bindflags = 0 and doc = "''doc''"]
    parse_required_missing_fails [where this = "\<lparr>get_config_name = ''MyPass'',
        m_parser = (\<lambda>n. if n = ''max_size'' then Some (7 :: nat) else None),
        m_reflecting = False, m_reflector = (), as = (\<lambda>v _. Inr v), reflect = (\<lambda>r _ _ _ _ _. r)\<rparr>"
      and name = "''max_size''" and dest' = 0 and bindflags = 0 and doc = "''doc''"]
  by simp

end
